theory Spec2Isabelle
  imports Complex_Main "HOL-Library.Log_Nat"
begin

section \<open>Strings\<close>

text \<open>
  A JavaScript string is a sequence of UTF-16 code units; the engine's only non-ASCII
  literal is the ballot-box glyph U+2610, one code unit.  Strings are therefore lists
  of code units (natural numbers), and \<open>js\<close> turns an ASCII literal into one.
  \<open>toLowerCase\<close> maps the letters A-Z and leaves every other code unit alone: case
  mapping of letters outside ASCII is not modelled.
\<close>

type_synonym jstring = "nat list"

definition js :: "string \<Rightarrow> jstring" where
  "js s = map of_char s"

definition glyph :: nat where
  "glyph = 9744"

definition lowerUnit :: "nat \<Rightarrow> nat" where
  "lowerUnit c = (if 65 \<le> c \<and> c \<le> 90 then c + 32 else c)"

definition toLowerCase :: "jstring \<Rightarrow> jstring" where
  "toLowerCase s = map lowerUnit s"

definition startsWith :: "jstring \<Rightarrow> jstring \<Rightarrow> bool" where
  "startsWith s p = (take (length p) s = p)"

fun includes_str :: "jstring \<Rightarrow> jstring \<Rightarrow> bool" where
  "includes_str [] sub = (sub = [])"
| "includes_str (c # cs) sub = (startsWith (c # cs) sub \<or> includes_str cs sub)"

text \<open>White space and line terminators, as \<open>trim\<close> and the regex class \<open>\s\<close> see them.\<close>

definition isSpace :: "nat \<Rightarrow> bool" where
  "isSpace c = (c \<in> {9, 10, 11, 12, 13, 32, 160, 5760, 8232, 8233, 8239, 8287, 12288, 65279}
                \<or> (8192 \<le> c \<and> c \<le> 8202))"

definition trimStart :: "jstring \<Rightarrow> jstring" where
  "trimStart s = dropWhile isSpace s"

definition trim :: "jstring \<Rightarrow> jstring" where
  "trim s = rev (dropWhile isSpace (rev (dropWhile isSpace s)))"

text \<open>\<open>s.split(sep)\<close> for a one-unit separator: always at least one piece.\<close>

fun split_str :: "nat \<Rightarrow> jstring \<Rightarrow> jstring list" where
  "split_str sep [] = [[]]"
| "split_str sep (c # cs) =
     (if c = sep then [] # split_str sep cs
      else (case split_str sep cs of [] \<Rightarrow> [[c]] | p # ps \<Rightarrow> (c # p) # ps))"

text \<open>\<open>xs.join(sep)\<close>.\<close>

fun join_str :: "jstring \<Rightarrow> jstring list \<Rightarrow> jstring" where
  "join_str sep [] = []"
| "join_str sep [x] = x"
| "join_str sep (x # y # ys) = x @ sep @ join_str sep (y # ys)"

text \<open>\<open>s.replace(/C+/g, '_')\<close> for a character class \<open>C\<close>: every maximal run of units
  of the class becomes one underscore.\<close>

function replaceRuns :: "(nat \<Rightarrow> bool) \<Rightarrow> jstring \<Rightarrow> jstring" where
  "replaceRuns C [] = []"
| "replaceRuns C (c # cs) =
     (if C c then 95 # replaceRuns C (dropWhile C cs) else c # replaceRuns C cs)"
  by pat_completeness auto
termination
  by (relation "measure (\<lambda>(C, s). length s)") (auto simp: length_dropWhile_le less_Suc_eq_le)

text \<open>\<open>s.replace(/[^a-z0-9]/g, '_')\<close>.\<close>

definition isLowerAlnum :: "nat \<Rightarrow> bool" where
  "isLowerAlnum c = ((97 \<le> c \<and> c \<le> 122) \<or> (48 \<le> c \<and> c \<le> 57))"

definition replaceNonAlnum :: "jstring \<Rightarrow> jstring" where
  "replaceNonAlnum s = map (\<lambda>c. if isLowerAlnum c then c else 95) s"

text \<open>The decimal digits of an array index, as a template literal prints it.\<close>

fun digits :: "nat \<Rightarrow> jstring" where
  "digits n = (if n < 10 then [48 + n] else digits (n div 10) @ [48 + n mod 10])"

declare digits.simps [simp del]

section \<open>Numbers\<close>

text \<open>
  A JavaScript number is an IEEE 754 double: \<open>NaN\<close>, an infinity, or a finite value.
  A finite value is given by the rational it denotes; the sign of zero is not modelled.
  Every arithmetic operation returns the exact result rounded to the nearest double, a
  tie going to the even significand, and an infinity where the rounded result leaves the
  range of the doubles.
\<close>

datatype number = NaN | PInf | NInf | Fin rat

text \<open>The nearest integer, a tie going to the even one.\<close>

definition roundEven :: "rat \<Rightarrow> int" where
  "roundEven r =
     (let f = \<lfloor>r\<rfloor>; d = r - of_int f in
      if d < 1 / 2 then f else if 1 / 2 < d then f + 1 else if even f then f else f + 1)"

text \<open>The binary exponent of a positive rational: \<open>2 powi e \<le> r < 2 powi (e + 1)\<close>.\<close>

definition ilog2 :: "rat \<Rightarrow> int" where
  "ilog2 r =
     (case quotient_of r of (p, q) \<Rightarrow>
        (let d = bitlen p - bitlen q in if 2 powi d \<le> r then d else d - 1))"

text \<open>
  Rounding to double precision: 53 significant bits, so the doubles around \<open>x\<close> are the
  multiples of \<open>2 powi (e - 52)\<close> for the exponent \<open>e\<close> of \<open>x\<close>, which is not taken below
  \<open>- 1022\<close> (the subnormal range); a result of magnitude \<open>2 ^ 1024\<close> or more overflows.
\<close>

definition fl :: "rat \<Rightarrow> number" where
  "fl x =
     (if x = 0 then Fin 0
      else (let e = max (ilog2 \<bar>x\<bar>) (- 1022);
                q = 2 powi (e - 52);
                y = of_int (roundEven (x / q)) * q
            in if 2 ^ 1024 \<le> y then PInf else if y \<le> - (2 ^ 1024) then NInf else Fin y))"

fun jneg :: "number \<Rightarrow> number" where
  "jneg NaN = NaN"
| "jneg PInf = NInf"
| "jneg NInf = PInf"
| "jneg (Fin a) = Fin (- a)"

fun jadd :: "number \<Rightarrow> number \<Rightarrow> number" where
  "jadd (Fin a) (Fin b) = fl (a + b)"
| "jadd NaN y = NaN"
| "jadd x NaN = NaN"
| "jadd PInf NInf = NaN"
| "jadd NInf PInf = NaN"
| "jadd PInf y = PInf"
| "jadd NInf y = NInf"
| "jadd (Fin a) y = y"

definition jsub :: "number \<Rightarrow> number \<Rightarrow> number" where
  "jsub x y = jadd x (jneg y)"

fun jmul :: "number \<Rightarrow> number \<Rightarrow> number" where
  "jmul (Fin a) (Fin b) = fl (a * b)"
| "jmul NaN y = NaN"
| "jmul x NaN = NaN"
| "jmul PInf PInf = PInf"
| "jmul PInf NInf = NInf"
| "jmul NInf PInf = NInf"
| "jmul NInf NInf = PInf"
| "jmul PInf (Fin b) = (if b = 0 then NaN else if 0 < b then PInf else NInf)"
| "jmul NInf (Fin b) = (if b = 0 then NaN else if 0 < b then NInf else PInf)"
| "jmul (Fin a) PInf = (if a = 0 then NaN else if 0 < a then PInf else NInf)"
| "jmul (Fin a) NInf = (if a = 0 then NaN else if 0 < a then NInf else PInf)"

fun jdiv :: "number \<Rightarrow> number \<Rightarrow> number" where
  "jdiv (Fin a) (Fin b) =
     (if b = 0 then (if a = 0 then NaN else if 0 < a then PInf else NInf)
      else fl (a / b))"
| "jdiv NaN y = NaN"
| "jdiv x NaN = NaN"
| "jdiv (Fin a) y = Fin 0"
| "jdiv PInf (Fin b) = (if 0 \<le> b then PInf else NInf)"
| "jdiv NInf (Fin b) = (if 0 \<le> b then NInf else PInf)"
| "jdiv PInf y = NaN"
| "jdiv NInf y = NaN"

text \<open>\<open>x > y\<close>\<close>

fun jgreater :: "number \<Rightarrow> number \<Rightarrow> bool" where
  "jgreater (Fin a) (Fin b) = (b < a)"
| "jgreater NaN y = False"
| "jgreater x NaN = False"
| "jgreater PInf PInf = False"
| "jgreater PInf y = True"
| "jgreater NInf y = False"
| "jgreater (Fin a) PInf = False"
| "jgreater (Fin a) NInf = True"

text \<open>
  \<open>Math.round\<close>: the nearest integer, a tie going towards plus infinity.  The result
  is exact: a double that is not an integer is below \<open>2 ^ 52\<close> in magnitude, and the
  integers up to there are doubles.
\<close>

fun Math_round :: "number \<Rightarrow> number" where
  "Math_round (Fin a) = Fin (of_int \<lfloor>a + 1 / 2\<rfloor>)"
| "Math_round x = x"

text \<open>
  An argument of a calculation: a number, or a missing one (\<open>undefined\<close>, \<open>null\<close>).
  \<open>toNumber\<close> is the coercion the arithmetic operators apply, \<open>falsy\<close> the test \<open>!x\<close>.
\<close>

datatype operand = Undef | Nul | Num number

fun toNumber :: "operand \<Rightarrow> number" where
  "toNumber Undef = NaN"
| "toNumber Nul = Fin 0"
| "toNumber (Num n) = n"

fun falsy :: "operand \<Rightarrow> bool" where
  "falsy Undef = True"
| "falsy Nul = True"
| "falsy (Num n) = (n = NaN \<or> n = Fin 0)"

section \<open>Automated calculation engine\<close>

definition turnoverRate :: "operand \<Rightarrow> operand \<Rightarrow> number" where
  "turnoverRate staffLeft averageStaff =
     (if falsy averageStaff \<or> averageStaff = Num (Fin 0) then Fin 0
      else Math_round (jmul (jdiv (toNumber staffLeft) (toNumber averageStaff)) (Fin 100)))"

definition fundingRatio :: "operand \<Rightarrow> operand \<Rightarrow> number" where
  "fundingRatio nonCore core =
     (if falsy core \<or> core = Num (Fin 0) then Fin 0
      else jdiv (Math_round (jmul (jdiv (toNumber nonCore) (toNumber core)) (Fin 100))) (Fin 100))"

definition corePercentage :: "operand \<Rightarrow> operand \<Rightarrow> number" where
  "corePercentage core totalAmount =
     (if falsy totalAmount \<or> totalAmount = Num (Fin 0) then Fin 0
      else Math_round (jmul (jdiv (toNumber core) (toNumber totalAmount)) (Fin 100)))"

text \<open>\<open>v != null && !isNaN(v)\<close>\<close>

fun validValue :: "operand \<Rightarrow> bool" where
  "validValue Undef = False"
| "validValue Nul = False"
| "validValue (Num n) = (n \<noteq> NaN)"

definition average :: "operand list \<Rightarrow> number" where
  "average values =
     (let validValues = filter validValue values in
      if length validValues = 0 then Fin 0
      else jdiv (Math_round (jmul
             (jdiv (fold (\<lambda>val sum. jadd sum (toNumber val)) validValues (Fin 0))
                   (Fin (of_nat (length validValues))))
             (Fin 100))) (Fin 100))"

definition growthRate :: "operand \<Rightarrow> operand \<Rightarrow> number" where
  "growthRate current previous =
     (if falsy previous \<or> previous = Num (Fin 0) then Fin 0
      else Math_round (jmul (jdiv (jsub (toNumber current) (toNumber previous))
                                  (toNumber previous)) (Fin 100)))"

text \<open>Rounding to the nearest integer with a tie going away from zero, to compare with.\<close>

definition roundHalfAway :: "rat \<Rightarrow> rat" where
  "roundHalfAway x = (if 0 \<le> x then of_int \<lfloor>x + 1 / 2\<rfloor> else - of_int \<lfloor>- x + 1 / 2\<rfloor>)"

text \<open>Rounding to the nearest integer with a tie going up, which is what \<open>Math.round\<close> does.\<close>

definition roundHalfUp :: "rat \<Rightarrow> rat" where
  "roundHalfUp x = of_int \<lfloor>x + 1 / 2\<rfloor>"

text \<open>\<open>Math.round\<close> as rounding half up, on every number.\<close>

fun halfUp :: "number \<Rightarrow> number" where
  "halfUp (Fin z) = Fin (roundHalfUp z)"
| "halfUp x = x"

text \<open>
  The value of a counter that started at 0 and was incremented \<open>n\<close> times: the doubles
  count exactly up to \<open>2 ^ 53\<close>, where adding 1 changes nothing any more.
\<close>

definition counter :: "nat \<Rightarrow> number" where
  "counter n = Fin (of_nat (min n (2 ^ 53)))"

text \<open>A denominator that is zero or absent: \<open>undefined\<close>, \<open>null\<close>, \<open>NaN\<close> or \<open>0\<close>.\<close>

definition absent :: "operand \<Rightarrow> bool" where
  "absent d = (d = Undef \<or> d = Nul \<or> d = Num NaN \<or> d = Num (Fin 0))"

section \<open>Field types, option libraries, validators\<close>

datatype fieldtype =
  NUMBER | CURRENCY | PERCENTAGE | SCALE | RADIO | CHECKBOX | DROPDOWN
  | CALCULATED | RATIO | TEXT_SHORT | DATE | PERIOD

text \<open>The \<open>type\<close> of a field configuration: one of the two group shapes, or a field type.\<close>

datatype cfgtype = calculated_group | multi_part | Simple fieldtype

text \<open>An option value is a string, or a number in the satisfaction scale.\<close>

datatype optval = SVal jstring | NVal int

record opt =
  opt_value :: optval
  opt_label :: jstring

definition mkopt :: "string \<Rightarrow> string \<Rightarrow> opt" where
  "mkopt v l = \<lparr>opt_value = SVal (js v), opt_label = js l\<rparr>"

definition difficulty :: "opt list" where
  "difficulty =
    [mkopt ''not_difficult'' ''Not difficult'',
     mkopt ''somewhat_difficult'' ''Somewhat difficult'',
     mkopt ''very_difficult'' ''Very difficult'',
     mkopt ''not_applicable'' ''Not applicable'']"

definition yesNoNA :: "opt list" where
  "yesNoNA =
    [mkopt ''yes'' ''Yes'', mkopt ''no'' ''No'', mkopt ''not_applicable'' ''Not applicable'']"

definition yesNo :: "opt list" where
  "yesNo = [mkopt ''yes'' ''Yes'', mkopt ''no'' ''No'']"

definition satisfactionScale :: "opt list" where
  "satisfactionScale =
    [\<lparr>opt_value = NVal 1, opt_label = js ''Very Dissatisfied''\<rparr>,
     \<lparr>opt_value = NVal 2, opt_label = js ''Dissatisfied''\<rparr>,
     \<lparr>opt_value = NVal 3, opt_label = js ''Neutral''\<rparr>,
     \<lparr>opt_value = NVal 4, opt_label = js ''Satisfied''\<rparr>,
     \<lparr>opt_value = NVal 5, opt_label = js ''Very Satisfied''\<rparr>]"

definition employeeBenefits :: "opt list" where
  "employeeBenefits =
    [mkopt ''health_dental'' ''Health and/or dental insurance'',
     mkopt ''eap'' ''Employee Assistance Program (EAP)'',
     mkopt ''mental_health_days'' ''Paid mental health or self-care days'',
     mkopt ''rrsp_matching'' ''RRSP matching or retirement savings program'',
     mkopt ''professional_development'' ''Paid professional development time or funds'',
     mkopt ''flexible_schedule'' ''Flexible work schedule'',
     mkopt ''remote_work'' ''Remote work options'',
     mkopt ''wellness_program'' ''Wellness program or gym membership'',
     mkopt ''extended_leave'' ''Extended parental/family leave'',
     mkopt ''other'' ''Other (specify)'']"

definition boardCompensation :: "opt list" where
  "boardCompensation =
    [mkopt ''per_meeting'' ''Per-meeting stipend'',
     mkopt ''monthly'' ''Monthly honorarium'',
     mkopt ''annual'' ''Annual honorarium'',
     mkopt ''travel'' ''Travel reimbursement'',
     mkopt ''childcare'' ''Childcare reimbursement'',
     mkopt ''gifts'' ''Gift cards or tokens'',
     mkopt ''other'' ''Other (specify)'']"

definition collaborationTypes :: "opt list" where
  "collaborationTypes =
    [mkopt ''co_programming'' ''Co-delivered programming or services'',
     mkopt ''joint_funding'' ''Joint funding proposals or reports'',
     mkopt ''shared_advocacy'' ''Shared advocacy or policy initiatives'',
     mkopt ''events'' ''Attended shared events or working groups'',
     mkopt ''coordination'' ''Regular coordination or planning'',
     mkopt ''resource_sharing'' ''Resource sharing (space, staff, tools)'',
     mkopt ''other'' ''Other (specify)'']"

text \<open>The validation rules are referred to by identity only; a tag stands for each.\<close>

datatype validator = Required | StaffCount | Currency | Percentage | Scale

text \<open>
  The formula of a calculated field is a closure over the sibling values; a tag names
  each closure and \<open>applyFormula\<close> runs it on the data object (a missing property reads
  as \<open>undefined\<close>).
\<close>

datatype formula =
  F_averageStaff | F_turnoverRate | F_totalFunding | F_corePercentage | F_fundingRatio

fun applyFormula :: "formula \<Rightarrow> (jstring \<Rightarrow> operand) \<Rightarrow> number" where
  "applyFormula F_averageStaff d =
     Math_round (jdiv (jadd (toNumber (d (js ''staffAtStart''))) (toNumber (d (js ''staffAtEnd''))))
                      (Fin 2))"
| "applyFormula F_turnoverRate d = turnoverRate (d (js ''staffLeft'')) (d (js ''averageStaff''))"
| "applyFormula F_totalFunding d =
     jadd (toNumber (d (js ''coreFunding''))) (toNumber (d (js ''projectFunding'')))"
| "applyFormula F_corePercentage d = corePercentage (d (js ''coreFunding'')) (d (js ''totalFunding''))"
| "applyFormula F_fundingRatio d = fundingRatio (d (js ''projectFunding'')) (d (js ''coreFunding''))"

section \<open>Field configurations\<close>

text \<open>An entry of \<open>fields\<close> in a group configuration; an absent key is \<open>None\<close>.\<close>

record input_field =
  in_key :: jstring
  in_type :: fieldtype
  in_label :: jstring
  in_options :: "opt list option"
  in_validation :: "validator list"
  in_placeholder :: "jstring option"
  in_dependsOn :: "jstring option"
  in_dependsOnValue :: "jstring option"

record calculation =
  calc_key :: jstring
  calc_formula :: formula
  calc_label :: jstring
  calc_format :: "jstring option"

text \<open>The object \<open>createFieldConfig\<close> returns; \<open>fields\<close> is empty where the object has none.\<close>

record fieldConfig =
  cfg_type :: cfgtype
  cfg_fields :: "input_field list"
  cfg_calculations :: "calculation list option"
  cfg_label :: "jstring option"
  cfg_options :: "opt list option"
  cfg_scale :: "opt list option"
  cfg_validation :: "validator list option"
  cfg_placeholder :: "jstring option"
  cfg_maxLength :: "nat option"
  cfg_warning :: "jstring option"

definition config :: "cfgtype \<Rightarrow> fieldConfig" where
  "config t =
     \<lparr>cfg_type = t, cfg_fields = [], cfg_calculations = None, cfg_label = None,
      cfg_options = None, cfg_scale = None, cfg_validation = None, cfg_placeholder = None,
      cfg_maxLength = None, cfg_warning = None\<rparr>"

definition numberInput :: "string \<Rightarrow> fieldtype \<Rightarrow> string \<Rightarrow> validator list \<Rightarrow> string \<Rightarrow> input_field" where
  "numberInput k t l v p =
     \<lparr>in_key = js k, in_type = t, in_label = js l, in_options = None, in_validation = v,
      in_placeholder = Some (js p), in_dependsOn = None, in_dependsOnValue = None\<rparr>"

definition calc :: "string \<Rightarrow> formula \<Rightarrow> string \<Rightarrow> string option \<Rightarrow> calculation" where
  "calc k f l fmt =
     \<lparr>calc_key = js k, calc_formula = f, calc_label = js l, calc_format = map_option js fmt\<rparr>"

section \<open>Text extraction helpers\<close>

text \<open>The loop of \<open>extractCheckboxOptions\<close> over the lines of the method text.\<close>

fun optionLines :: "jstring list \<Rightarrow> opt list" where
  "optionLines [] = []"
| "optionLines (line # rest) =
     (let trimmedLine = trim line in
      if startsWith trimmedLine [glyph] then
        (let optionText = trim (drop 2 trimmedLine) in
         if optionText \<noteq> [] \<and> optionText \<noteq> js ''Other (please specify)'' then
           \<lparr>opt_value = SVal (replaceRuns isSpace (toLowerCase optionText)),
            opt_label = optionText\<rparr> # optionLines rest
         else optionLines rest)
      else optionLines rest)"

definition otherOption :: opt where
  "otherOption = mkopt ''other'' ''Other (specify)''"

definition extractCheckboxOptions :: "jstring option \<Rightarrow> opt list" where
  "extractCheckboxOptions measurementMethod =
     (case measurementMethod of
        None \<Rightarrow> []
      | Some m \<Rightarrow>
          if m = [] then []
          else (let options = optionLines (split_str 10 m) in
                if length options > 0 then options @ [otherOption] else options))"

text \<open>
  \<open>/^([^?]*\?)\s*\(Yes\/No\)/\<close>: the text up to and including the first question mark,
  when white space and then the marker follow it.
\<close>

definition extractYesNoQuestion :: "jstring \<Rightarrow> jstring" where
  "extractYesNoQuestion method =
     (let question = takeWhile (\<lambda>c. c \<noteq> 63) method;
          rest = dropWhile (\<lambda>c. c \<noteq> 63) method
      in if rest \<noteq> [] \<and> startsWith (dropWhile isSpace (tl rest)) (js ''(Yes/No)'')
         then question @ [63]
         else js ''Does your organization have this?'')"

text \<open>
  \<open>/Which of the following[^?]*\?|What[^?]*\?/\<close>: \<open>matchLiteral\<close> tries one
  alternative at the start of the text, \<open>searchQuestion\<close> the two alternatives at each
  position from the left.
\<close>

definition matchLiteral :: "jstring \<Rightarrow> jstring \<Rightarrow> jstring option" where
  "matchLiteral lit s =
     (if startsWith s lit \<and> 63 \<in> set (drop (length lit) s)
      then Some (lit @ takeWhile (\<lambda>c. c \<noteq> 63) (drop (length lit) s) @ [63])
      else None)"

definition matchHere :: "jstring \<Rightarrow> jstring option" where
  "matchHere s =
     (case matchLiteral (js ''Which of the following'') s of
        Some m \<Rightarrow> Some m
      | None \<Rightarrow> matchLiteral (js ''What'') s)"

fun searchQuestion :: "jstring \<Rightarrow> jstring option" where
  "searchQuestion [] = matchHere []"
| "searchQuestion (c # cs) =
     (case matchHere (c # cs) of Some m \<Rightarrow> Some m | None \<Rightarrow> searchQuestion cs)"

definition extractCheckboxQuestion :: "jstring \<Rightarrow> jstring" where
  "extractCheckboxQuestion method =
     (case searchQuestion method of
        Some m \<Rightarrow> m
      | None \<Rightarrow> js ''Which of the following apply?'')"

text \<open>
  The loop of \<open>extractCheckboxOptionsFromMethod\<close> over the matches of
  \<open>/G\s*([^G]+?)(?=G|$)/g\<close>, where \<open>G\<close> stands for the glyph U+2610.  A glyph
  matches when the text between it and the next glyph (or the end) is not empty; the
  group is that text without its leading white space, or its last unit when it is white
  space only.
\<close>

definition captureOption :: "jstring \<Rightarrow> jstring" where
  "captureOption seg =
     (if dropWhile isSpace seg = [] then [last seg] else dropWhile isSpace seg)"

fun optionMatches :: "jstring list \<Rightarrow> opt list" where
  "optionMatches [] = []"
| "optionMatches (seg # rest) =
     (if seg = [] then optionMatches rest
      else (let optionText = trim (captureOption seg) in
            if optionText \<noteq> [] \<and> \<not> includes_str optionText (js ''Other (please specify)'') then
              \<lparr>opt_value = SVal (replaceRuns (\<lambda>c. c = 95) (replaceNonAlnum (toLowerCase optionText))),
               opt_label = optionText\<rparr> # optionMatches rest
            else optionMatches rest))"

definition extractCheckboxOptionsFromMethod :: "jstring \<Rightarrow> opt list" where
  "extractCheckboxOptionsFromMethod method =
     (let standardOptions = extractCheckboxOptions (Some method) in
      if length standardOptions > 0 then standardOptions
      else (let found = optionMatches (tl (split_str glyph method));
                options = (if length found > 0 then found @ [otherOption] else found)
            in if length options = 0
                  \<and> (includes_str (toLowerCase method) (js ''benefit'')
                      \<or> includes_str (toLowerCase method) (js ''wellness''))
               then employeeBenefits
               else if length options > 0 then options else collaborationTypes))"

section \<open>Field configuration factory\<close>

definition turnoverConfig :: fieldConfig where
  "turnoverConfig = (config calculated_group)
     \<lparr>cfg_fields :=
        [numberInput ''staffAtStart'' NUMBER ''Staff count at period start''
           [Required, StaffCount] ''e.g., 12'',
         numberInput ''staffAtEnd'' NUMBER ''Staff count at period end''
           [Required, StaffCount] ''e.g., 10'',
         numberInput ''staffLeft'' NUMBER ''Number of staff who left during period''
           [Required, StaffCount] ''e.g., 3''],
      cfg_calculations := Some
        [calc ''averageStaff'' F_averageStaff ''Average staff count'' None,
         calc ''turnoverRate'' F_turnoverRate ''Turnover rate (%)'' (Some ''percentage'')]\<rparr>"

definition fundingConfig :: fieldConfig where
  "fundingConfig = (config calculated_group)
     \<lparr>cfg_fields :=
        [numberInput ''coreFunding'' CURRENCY ''Total core funding ($)''
           [Required, Currency] ''e.g., 150000'',
         numberInput ''projectFunding'' CURRENCY ''Total project/program-specific funding ($)''
           [Required, Currency] ''e.g., 75000''],
      cfg_calculations := Some
        [calc ''totalFunding'' F_totalFunding ''Total funding ($)'' (Some ''currency''),
         calc ''corePercentage'' F_corePercentage ''Core funding percentage (%)'' (Some ''percentage''),
         calc ''fundingRatio'' F_fundingRatio ''Funding leverage ratio'' (Some ''ratio'')]\<rparr>"

definition multiPartConfig :: "jstring \<Rightarrow> fieldConfig" where
  "multiPartConfig method = (config multi_part)
     \<lparr>cfg_fields :=
        [\<lparr>in_key = js ''hasProgram'', in_type = RADIO, in_label = extractYesNoQuestion method,
          in_options = Some yesNo, in_validation = [Required], in_placeholder = None,
          in_dependsOn = None, in_dependsOnValue = None\<rparr>,
         \<lparr>in_key = js ''details'', in_type = CHECKBOX, in_label = extractCheckboxQuestion method,
          in_options = Some (extractCheckboxOptionsFromMethod method),
          in_validation = [Required], in_placeholder = None,
          in_dependsOn = Some (js ''hasProgram''), in_dependsOnValue = Some (js ''yes'')\<rparr>]\<rparr>"

definition choiceConfig :: "fieldtype \<Rightarrow> opt list \<Rightarrow> fieldConfig" where
  "choiceConfig t options =
     (config (Simple t))\<lparr>cfg_options := Some options, cfg_validation := Some [Required]\<rparr>"

definition scaleConfig :: fieldConfig where
  "scaleConfig = (config (Simple SCALE))
     \<lparr>cfg_scale := Some satisfactionScale, cfg_validation := Some [Required]\<rparr>"

definition meetingsConfig :: fieldConfig where
  "meetingsConfig = (config (Simple NUMBER))
     \<lparr>cfg_label := Some (js ''Number of meetings/events attended''),
      cfg_validation := Some [Required, StaffCount],
      cfg_placeholder := Some (js ''e.g., 4'')\<rparr>"

definition numberConfig :: fieldConfig where
  "numberConfig = (config (Simple NUMBER))
     \<lparr>cfg_validation := Some [Required, StaffCount],
      cfg_placeholder := Some (js ''Enter number'')\<rparr>"

definition percentageConfig :: fieldConfig where
  "percentageConfig = (config (Simple PERCENTAGE))
     \<lparr>cfg_validation := Some [Required, Percentage],
      cfg_placeholder := Some (js ''e.g., 25'')\<rparr>"

definition textConfig :: fieldConfig where
  "textConfig = (config (Simple TEXT_SHORT))
     \<lparr>cfg_maxLength := Some 100,
      cfg_validation := Some [Required],
      cfg_placeholder := Some (js ''Brief response (max 100 characters)''),
      cfg_warning := Some (js
        ''Consider converting this to structured data for better comparability'')\<rparr>"

text \<open>
  \<open>createFieldConfig(indicatorName, measurementMethod)\<close>; the second argument may be
  missing (\<open>None\<close>), and \<open>method\<close> is then the empty string.  The rules are tried in the
  order of the source, all of them on the lower-cased texts.
\<close>

definition createFieldConfig :: "jstring \<Rightarrow> jstring option \<Rightarrow> fieldConfig" where
  "createFieldConfig indicatorName measurementMethod =
     (let name = toLowerCase indicatorName;
          method = (case measurementMethod of
                      None \<Rightarrow> []
                    | Some m \<Rightarrow> toLowerCase m)
      in
      if includes_str name (js ''turnover'') \<or> includes_str name (js ''retention'') then
        turnoverConfig
      else if includes_str name (js ''funding'')
              \<and> (includes_str name (js ''ratio'') \<or> includes_str name (js ''core'')) then
        fundingConfig
      else if includes_str method (js ''(Yes/No)'')
              \<and> includes_str method (js ''Check all that apply'') then
        multiPartConfig method
      else if (includes_str name (js ''wellness'') \<or> includes_str name (js ''benefit''))
              \<and> includes_str method (js ''Check all that apply'') then
        choiceConfig CHECKBOX employeeBenefits
      else if includes_str method (js ''yes/no'') \<or> includes_str method (js ''(yes / no)'')
              \<or> includes_str method (js ''(Yes/No)'') then
        choiceConfig RADIO yesNo
      else if includes_str method (js ''check all that apply'') \<or> includes_str method [glyph] then
        (let options = extractCheckboxOptions measurementMethod in
         choiceConfig CHECKBOX (if length options > 0 then options else collaborationTypes))
      else if includes_str method (js ''difficult'') \<and> includes_str method (js ''options:'') then
        choiceConfig RADIO difficulty
      else if includes_str name (js ''satisfaction'') \<or> includes_str method (js ''satisfied'') then
        scaleConfig
      else if includes_str name (js ''board'') \<and> includes_str name (js ''compensation'') then
        choiceConfig CHECKBOX boardCompensation
      else if includes_str name (js ''collaboration'') \<or> includes_str name (js ''coalition'') then
        (if includes_str method (js ''how many'') then meetingsConfig
         else choiceConfig CHECKBOX collaborationTypes)
      else if includes_str method (js ''how many'') \<or> includes_str method (js ''number of'') then
        numberConfig
      else if includes_str method (js ''percentage'') \<or> includes_str method (js ''%'') then
        percentageConfig
      else textConfig)"

section \<open>Tier classification\<close>

definition determineTier :: "jstring \<Rightarrow> jstring \<Rightarrow> nat" where
  "determineTier indicator method =
     (let text = toLowerCase (indicator @ js '' '' @ method) in
      if includes_str text (js ''staff'') \<and> includes_str text (js ''turnover'') then 1
      else if includes_str text (js ''funding'')
              \<and> (includes_str text (js ''core'') \<or> includes_str text (js ''ratio'')) then 1
      else if includes_str text (js ''board'') \<and> includes_str text (js ''meeting'') then 1
      else if includes_str text (js ''collaboration'') \<or> includes_str text (js ''coalition'') then 2
      else if includes_str text (js ''satisfaction'') \<or> includes_str text (js ''feedback'') then 2
      else if includes_str text (js ''training'')
              \<or> includes_str text (js ''professional development'') then 2
      else if includes_str text (js ''outcome'') \<or> includes_str text (js ''impact'') then 3
      else if includes_str text (js ''policy'') \<or> includes_str text (js ''advocacy'') then 3
      else if includes_str text (js ''leadership'') \<or> includes_str text (js ''governance'') then 3
      else 2)"

section \<open>Generating standardized fields from CSV data\<close>

record Field =
  fld_id :: jstring
  fld_type :: fieldtype
  fld_label :: jstring
  fld_description :: "jstring option"
  fld_options :: "opt list option"
  fld_required :: bool
  fld_placeholder :: "jstring option"
  fld_validation :: "validator list option"
  fld_maxLength :: "nat option"
  fld_warning :: "jstring option"
  fld_formula :: "formula option"
  fld_format :: "jstring option"
  fld_unit :: "jstring option"
  fld_dependsOn :: "jstring option"
  fld_dependsOnValue :: "jstring option"

record Indicator =
  ind_id :: jstring
  ind_title :: jstring
  ind_description :: jstring
  ind_tier :: nat
  ind_fields :: "Field list"

definition newField :: "jstring \<Rightarrow> fieldtype \<Rightarrow> jstring \<Rightarrow> bool \<Rightarrow> Field" where
  "newField i t l r =
     \<lparr>fld_id = i, fld_type = t, fld_label = l, fld_description = None, fld_options = None,
      fld_required = r, fld_placeholder = None, fld_validation = None, fld_maxLength = None,
      fld_warning = None, fld_formula = None, fld_format = None, fld_unit = None,
      fld_dependsOn = None, fld_dependsOnValue = None\<rparr>"

text \<open>
  A row is an object from column header to cell text, given by its entries in the order
  \<open>Object.keys\<close> lists them.  \<open>getProp\<close> reads a property (\<open>None\<close> is \<open>undefined\<close>); a
  column name that was not found is \<open>undefined\<close>, and reading \<open>row[undefined]\<close> reads the
  property named \<open>undefined\<close>.
\<close>

type_synonym row = "(jstring \<times> jstring) list"

definition keys :: "row \<Rightarrow> jstring list" where
  "keys r = map fst r"

definition getProp :: "row \<Rightarrow> jstring \<Rightarrow> jstring option" where
  "getProp r k = map_of r k"

definition propertyKey :: "jstring option \<Rightarrow> jstring" where
  "propertyKey col = (case col of None \<Rightarrow> js ''undefined'' | Some k \<Rightarrow> k)"

text \<open>\<open>x || ''\<close> for a cell.\<close>

definition orEmpty :: "jstring option \<Rightarrow> jstring" where
  "orEmpty x = (case x of None \<Rightarrow> [] | Some t \<Rightarrow> t)"

definition isIndicatorKey :: "jstring \<Rightarrow> bool" where
  "isIndicatorKey k =
     (includes_str (toLowerCase k) (js ''indicator'')
      \<or> includes_str (toLowerCase k) (js ''outcome'')
      \<or> includes_str (toLowerCase k) (js ''measure''))"

definition isMethodKey :: "jstring \<Rightarrow> bool" where
  "isMethodKey k =
     (includes_str (toLowerCase k) (js ''method'')
      \<or> includes_str (toLowerCase k) (js ''how'')
      \<or> includes_str (toLowerCase k) (js ''measurement'')
      \<or> includes_str (toLowerCase k) (js ''approach''))"

definition isNotesKey :: "jstring \<Rightarrow> bool" where
  "isNotesKey k =
     (includes_str (toLowerCase k) (js ''note'')
      \<or> includes_str (toLowerCase k) (js ''description'')
      \<or> includes_str (toLowerCase k) (js ''comment''))"

text \<open>The three shapes of field list, for the indicator with identifier \<open>iid\<close>.\<close>

definition inputToField :: "jstring \<Rightarrow> input_field \<Rightarrow> Field" where
  "inputToField iid f =
     (newField (iid @ js ''_'' @ in_key f) (in_type f) (in_label f) True)
       \<lparr>fld_placeholder := in_placeholder f, fld_validation := Some (in_validation f)\<rparr>"

definition unitOf :: "jstring option \<Rightarrow> jstring" where
  "unitOf fmt =
     (if fmt = Some (js ''percentage'') then js ''%''
      else if fmt = Some (js ''currency'') then js ''$'' else [])"

definition calcToField :: "jstring \<Rightarrow> calculation \<Rightarrow> Field" where
  "calcToField iid c =
     (newField (iid @ js ''_'' @ calc_key c) CALCULATED (calc_label c) False)
       \<lparr>fld_formula := Some (calc_formula c), fld_format := calc_format c,
        fld_unit := Some (unitOf (calc_format c))\<rparr>"

definition partToField :: "jstring \<Rightarrow> input_field \<Rightarrow> Field" where
  "partToField iid f =
     (newField (iid @ js ''_'' @ in_key f) (in_type f) (in_label f) (Required \<in> set (in_validation f)))
       \<lparr>fld_options := in_options f,
        fld_dependsOn :=
          (case in_dependsOn f of
             None \<Rightarrow> None
           | Some d \<Rightarrow> if d = [] then None else Some (iid @ js ''_'' @ d)),
        fld_dependsOnValue := in_dependsOnValue f,
        fld_validation := Some (in_validation f)\<rparr>"

definition mainField :: "jstring \<Rightarrow> fieldtype \<Rightarrow> jstring \<Rightarrow> jstring \<Rightarrow> fieldConfig \<Rightarrow> Field" where
  "mainField iid t indicatorText methodText fieldConfig =
     (newField (iid @ js ''_main'') t indicatorText True)
       \<lparr>fld_description := Some methodText,
        fld_options := (case cfg_options fieldConfig of
                          Some os \<Rightarrow> Some os
                        | None \<Rightarrow> cfg_scale fieldConfig),
        fld_placeholder := cfg_placeholder fieldConfig,
        fld_validation := cfg_validation fieldConfig,
        fld_maxLength := cfg_maxLength fieldConfig,
        fld_warning := cfg_warning fieldConfig\<rparr>"

definition expandFields :: "jstring \<Rightarrow> jstring \<Rightarrow> jstring \<Rightarrow> fieldConfig \<Rightarrow> Field list" where
  "expandFields iid indicatorText methodText fieldConfig =
     (case cfg_type fieldConfig of
        calculated_group \<Rightarrow>
          map (inputToField iid) (cfg_fields fieldConfig)
          @ (case cfg_calculations fieldConfig of
               None \<Rightarrow> []
             | Some cs \<Rightarrow> map (calcToField iid) cs)
      | multi_part \<Rightarrow> map (partToField iid) (cfg_fields fieldConfig)
      | Simple t \<Rightarrow> [mainField iid t indicatorText methodText fieldConfig])"

text \<open>The body of the loop over the rows: \<open>None\<close> when the row is skipped.\<close>

definition rowIndicator ::
  "jstring \<Rightarrow> jstring option \<Rightarrow> jstring option \<Rightarrow> nat \<Rightarrow> row \<Rightarrow> Indicator option" where
  "rowIndicator indicatorCol methodCol notesCol index r =
     (let methodText = orEmpty (getProp r (propertyKey methodCol)) in
      case getProp r indicatorCol of
        None \<Rightarrow> None
      | Some indicatorText \<Rightarrow>
          if indicatorText = [] \<or> trim indicatorText = [] then None
          else
            (let iid = js ''indicator_'' @ digits index in
             Some \<lparr>ind_id = iid,
                   ind_title = trim indicatorText,
                   ind_description = orEmpty (getProp r (propertyKey notesCol)),
                   ind_tier = determineTier indicatorText methodText,
                   ind_fields = expandFields iid indicatorText methodText
                                  (createFieldConfig indicatorText (Some methodText))\<rparr>))"

fun compileRows ::
  "jstring \<Rightarrow> jstring option \<Rightarrow> jstring option \<Rightarrow> nat \<Rightarrow> row list \<Rightarrow> Indicator list" where
  "compileRows indicatorCol methodCol notesCol index [] = []"
| "compileRows indicatorCol methodCol notesCol index (r # rest) =
     (case rowIndicator indicatorCol methodCol notesCol index r of
        None \<Rightarrow> compileRows indicatorCol methodCol notesCol (Suc index) rest
      | Some indicator \<Rightarrow>
          indicator # compileRows indicatorCol methodCol notesCol (Suc index) rest)"

datatype error = Error jstring

text \<open>
  The argument is \<open>null\<close>, \<open>undefined\<close> or an array of row objects.  A row object is
  never falsy, so the second early return of the source is the empty-array case again.
  The console output is not modelled.
\<close>

datatype csvData = NullData | UndefinedData | Rows "row list"

definition missingColumn :: "row \<Rightarrow> error" where
  "missingColumn firstRow =
     Error (js ''No indicator column found. Available columns: '' @ join_str (js '', '') (keys firstRow))"

fun generateStandardizedFields :: "csvData \<Rightarrow> error + Indicator list" where
  "generateStandardizedFields NullData = Inr []"
| "generateStandardizedFields UndefinedData = Inr []"
| "generateStandardizedFields (Rows []) = Inr []"
| "generateStandardizedFields (Rows (firstRow # rest)) =
     (let indicatorCol = find isIndicatorKey (keys firstRow);
          methodCol = find isMethodKey (keys firstRow);
          notesCol = find isNotesKey (keys firstRow)
      in case indicatorCol of
           None \<Rightarrow> Inl (missingColumn firstRow)
         | Some col \<Rightarrow>
             if col = [] then Inl (missingColumn firstRow)
             else Inr (compileRows col methodCol notesCol 0 (firstRow # rest)))"

section \<open>Completion and data quality scores\<close>

text \<open>A response value; the store answers every field identifier, \<open>VUndefined\<close> when it
  holds nothing for it.\<close>

datatype jsval =
  VUndefined | VNull | VBool bool | VNumber number | VString jstring | VArray "jsval list"

text \<open>\<open>v != null && v !== ''\<close>\<close>

definition answered :: "jsval \<Rightarrow> bool" where
  "answered v = (v \<noteq> VUndefined \<and> v \<noteq> VNull \<and> v \<noteq> VString [])"

record score =
  sc_percentage :: number
  sc_completed :: number
  sc_total :: number

text \<open>The two counters \<open>(totalFields, completedFields)\<close>, stepped by one field.\<close>

definition countField ::
  "(jstring \<Rightarrow> jsval) \<Rightarrow> Field \<Rightarrow> number \<times> number \<Rightarrow> number \<times> number" where
  "countField responses f counters =
     (case counters of (totalFields, completedFields) \<Rightarrow>
        if fld_type f \<noteq> CALCULATED then
          (jadd totalFields (Fin 1),
           if answered (responses (fld_id f)) then jadd completedFields (Fin 1)
           else completedFields)
        else (totalFields, completedFields))"

definition countFields :: "(jstring \<Rightarrow> jsval) \<Rightarrow> Indicator list \<Rightarrow> number \<times> number" where
  "countFields responses indicators =
     fold (\<lambda>indicator. fold (countField responses) (ind_fields indicator)) indicators
       (Fin 0, Fin 0)"

text \<open>\<open>whole > 0 ? Math.round((part / whole) * 100) : 0\<close>\<close>

definition percentOf :: "number \<Rightarrow> number \<Rightarrow> number" where
  "percentOf part whole =
     (if jgreater whole (Fin 0) then Math_round (jmul (jdiv part whole) (Fin 100))
      else Fin 0)"

text \<open>\<open>indicators\<close> may be missing (\<open>None\<close>).\<close>

definition calculateCompletionScore :: "Indicator list option \<Rightarrow> (jstring \<Rightarrow> jsval) \<Rightarrow> score" where
  "calculateCompletionScore indicators responses =
     (case indicators of
        None \<Rightarrow> \<lparr>sc_percentage = Fin 0, sc_completed = Fin 0, sc_total = Fin 0\<rparr>
      | Some inds \<Rightarrow>
          if length inds = 0 then \<lparr>sc_percentage = Fin 0, sc_completed = Fin 0, sc_total = Fin 0\<rparr>
          else (case countFields responses inds of (totalFields, completedFields) \<Rightarrow>
                  \<lparr>sc_percentage = percentOf completedFields totalFields,
                   sc_completed = completedFields,
                   sc_total = totalFields\<rparr>))"

text \<open>A response tagged with its field type, as \<open>calculateDataQuality\<close> reads it.\<close>

record response =
  resp_value :: jsval
  resp_type :: fieldtype

record quality =
  completeness :: number
  standardization :: number
  overallScore :: number

definition structuredTypes :: "fieldtype list" where
  "structuredTypes = [NUMBER, CURRENCY, RADIO, CHECKBOX, SCALE, CALCULATED]"

text \<open>The three counters \<open>(totalFields, completedFields, standardizedFields)\<close>.\<close>

definition countResponse ::
  "jstring \<times> response \<Rightarrow> number \<times> number \<times> number \<Rightarrow> number \<times> number \<times> number" where
  "countResponse entry counters =
     (case counters of (totalFields, completedFields, standardizedFields) \<Rightarrow>
        if answered (resp_value (snd entry)) then
          (jadd totalFields (Fin 1), jadd completedFields (Fin 1),
           if resp_type (snd entry) \<in> set structuredTypes then jadd standardizedFields (Fin 1)
           else standardizedFields)
        else (jadd totalFields (Fin 1), completedFields, standardizedFields))"

text \<open>The literals \<open>0.6\<close> and \<open>0.4\<close> are the doubles nearest to these decimals.\<close>

definition calculateDataQuality :: "(jstring \<times> response) list \<Rightarrow> quality" where
  "calculateDataQuality responses =
     (case fold countResponse responses (Fin 0, Fin 0, Fin 0) of
        (totalFields, completedFields, standardizedFields) \<Rightarrow>
          \<lparr>completeness = percentOf completedFields totalFields,
           standardization = percentOf standardizedFields completedFields,
           overallScore =
             (if jgreater totalFields (Fin 0) then
                Math_round (jmul
                  (jdiv (jadd (jmul completedFields (fl (6 / 10)))
                              (jmul standardizedFields (fl (4 / 10))))
                        totalFields)
                  (Fin 100))
              else Fin 0)\<rparr>)"

text \<open>A row whose cell in the indicator column holds more than white space.\<close>

definition nonBlankCell :: "jstring \<Rightarrow> row \<Rightarrow> bool" where
  "nonBlankCell col r = (case getProp r col of None \<Rightarrow> False | Some t \<Rightarrow> trim t \<noteq> [])"

text \<open>The field identifiers of a compiled run, in order.\<close>

definition fieldIds :: "Indicator list \<Rightarrow> jstring list" where
  "fieldIds inds = concat (map (\<lambda>ind. map fld_id (ind_fields ind)) inds)"

text \<open>An identifier that starts with the identifier of the indicator of row \<open>i\<close>.\<close>

definition idOfRow :: "nat \<Rightarrow> jstring \<Rightarrow> bool" where
  "idOfRow i x = (\<exists>s. x = js ''indicator_'' @ digits i @ js ''_'' @ s)"

text \<open>Fields whose identifiers are \<open>iid\<close>, an underscore and pairwise distinct suffixes.\<close>

definition suffixed :: "jstring \<Rightarrow> Field list \<Rightarrow> bool" where
  "suffixed iid fs =
     (\<exists>suffixes. distinct suffixes \<and> map fld_id fs = map (\<lambda>s. iid @ js ''_'' @ s) suffixes)"

text \<open>The fields a user fills in: all fields of all indicators but the calculated ones.\<close>

definition userFields :: "Indicator list \<Rightarrow> Field list" where
  "userFields inds = filter (\<lambda>f. fld_type f \<noteq> CALCULATED) (concat (map ind_fields inds))"

text \<open>A percentage value: a finite number from 0 to 100.\<close>

definition isPercent :: "number \<Rightarrow> bool" where
  "isPercent n = (case n of Fin p \<Rightarrow> 0 \<le> p \<and> p \<le> 100 | _ \<Rightarrow> False)"

section \<open>Properties of double arithmetic\<close>

text \<open>
  The exponent is the binary exponent, rounding moves a value by at most half a unit in
  the last place, the natural numbers up to \<open>2 ^ 53\<close> are doubles, and a value of \<open>2 ^
  1024\<close> or more overflows.  \<open>fl_normal\<close> evaluates \<open>fl\<close> at a value in the normal range.
\<close>

lemma bitlen_rat_bounds:
  assumes "0 < p"
  shows "(2::rat) powi (bitlen p - 1) \<le> of_int p \<and> of_int p < (2::rat) powi bitlen p"
proof -
  from assms have b: "1 \<le> bitlen p"
    by (auto simp: bitlen_alt_def)
  have "2 ^ nat (bitlen p - 1) \<le> p" "p < 2 ^ nat (bitlen p)"
    using bitlen_bounds[OF assms] by auto
  then have "(of_int (2 ^ nat (bitlen p - 1)) :: rat) \<le> of_int p"
    "(of_int p :: rat) < of_int (2 ^ nat (bitlen p))"
    by (simp_all only: of_int_le_iff of_int_less_iff)
  then show ?thesis
    using b by (simp add: power_int_nonneg_exp)
qed

lemma ilog2_bounds:
  assumes "0 < r"
  shows "2 powi ilog2 r \<le> r \<and> r < 2 powi (ilog2 r + 1)"
proof -
  obtain p q where pq: "quotient_of r = (p, q)"
    by (cases "quotient_of r")
  then have q: "0 < q" and r: "r = of_int p / of_int q"
    using quotient_of_denom_pos quotient_of_div by blast+
  have p: "0 < p"
    using assms q r by (simp add: zero_less_divide_iff)
  define d where "d = bitlen p - bitlen q"
  have P: "(2::rat) powi (bitlen p - 1) \<le> of_int p" "of_int p < (2::rat) powi bitlen p"
    using bitlen_rat_bounds[OF p] by auto
  have Q: "(2::rat) powi (bitlen q - 1) \<le> of_int q" "of_int q < (2::rat) powi bitlen q"
    using bitlen_rat_bounds[OF q] by auto
  have qpos: "(0::rat) < of_int q" using q by simp
  have low: "2 powi (d - 1) \<le> r"
  proof -
    have "(2::rat) powi (d - 1) = 2 powi (bitlen p - 1) / 2 powi bitlen q"
      by (simp add: d_def power_int_diff)
    also have "\<dots> \<le> of_int p / of_int q"
      using P(1) Q(2) qpos p by (intro frac_le) simp_all
    finally show ?thesis using r by simp
  qed
  have up: "r < 2 powi (d + 1)"
  proof -
    have "of_int p / of_int q < (2::rat) powi bitlen p / 2 powi (bitlen q - 1)"
      using P(2) Q(1) qpos p by (intro frac_less) simp_all
    also have "\<dots> = 2 powi (bitlen p - (bitlen q - 1))"
      by (simp only: power_int_diff[of "2::rat", symmetric, simplified])
    also have "bitlen p - (bitlen q - 1) = d + 1"
      by (simp add: d_def)
    finally show ?thesis using r by simp
  qed
  show ?thesis
  proof (cases "2 powi d \<le> r")
    case True
    then have "ilog2 r = d"
      by (simp add: ilog2_def pq d_def)
    then show ?thesis using True up by simp
  next
    case False
    then have "ilog2 r = d - 1"
      by (simp add: ilog2_def pq d_def)
    then show ?thesis using False low by simp
  qed
qed

lemma ilog2_unique:
  assumes "(2::rat) powi e \<le> r" and "r < 2 powi (e + 1)"
  shows "ilog2 r = e"
proof -
  have "(0::rat) < 2 powi e"
    by simp
  then have pos: "0 < r"
    using assms(1) by linarith
  have b: "2 powi ilog2 r \<le> r" "r < 2 powi (ilog2 r + 1)"
    using ilog2_bounds[OF pos] by auto
  have "e < ilog2 r + 1"
  proof (rule ccontr)
    assume "\<not> e < ilog2 r + 1"
    then have "(2::rat) powi (ilog2 r + 1) \<le> 2 powi e"
      by (intro power_int_increasing) simp_all
    then show False
      using assms(1) b(2) by linarith
  qed
  moreover have "ilog2 r < e + 1"
  proof (rule ccontr)
    assume "\<not> ilog2 r < e + 1"
    then have "(2::rat) powi (e + 1) \<le> 2 powi ilog2 r"
      by (intro power_int_increasing) simp_all
    then show False
      using assms(2) b(1) by linarith
  qed
  ultimately show ?thesis
    by simp
qed

lemma roundEven_close: "\<bar>of_int (roundEven r) - r\<bar> \<le> 1 / 2"
proof -
  have f: "of_int \<lfloor>r\<rfloor> \<le> r" "r < of_int \<lfloor>r\<rfloor> + 1"
    by linarith+
  consider "r - of_int \<lfloor>r\<rfloor> < 1 / 2" | "1 / 2 < r - of_int \<lfloor>r\<rfloor>"
    | "r - of_int \<lfloor>r\<rfloor> = 1 / 2"
    by linarith
  then show ?thesis
  proof cases
    case 1
    then have "roundEven r = \<lfloor>r\<rfloor>"
      by (simp add: roundEven_def)
    then show ?thesis using f 1 by simp
  next
    case 2
    then have "roundEven r = \<lfloor>r\<rfloor> + 1"
      by (simp add: roundEven_def)
    then show ?thesis using f 2 by simp
  next
    case 3
    then have "roundEven r = \<lfloor>r\<rfloor> \<or> roundEven r = \<lfloor>r\<rfloor> + 1"
      by (simp add: roundEven_def Let_def)
    then show ?thesis using f 3 by auto
  qed
qed

lemma roundEven_nonneg: "0 \<le> r \<Longrightarrow> 0 \<le> roundEven r"
  unfolding roundEven_def Let_def by (auto simp: zero_le_floor)

lemma roundEven_of_int: "roundEven (of_int k) = k"
  by (simp add: roundEven_def)

lemma roundEven_eqI: "\<bar>r - of_int m\<bar> < 1 / 2 \<Longrightarrow> roundEven r = m"
proof -
  assume a: "\<bar>r - of_int m\<bar> < 1 / 2"
  have c: "\<bar>of_int (roundEven r) - r\<bar> \<le> 1 / 2"
    by (rule roundEven_close)
  have "\<bar>(of_int (roundEven r) :: rat) - of_int m\<bar> < 1"
    using a c by linarith
  then have "\<bar>(of_int (roundEven r - m) :: rat)\<bar> < 1"
    by simp
  then have "\<bar>roundEven r - m\<bar> < 1"
    by (metis of_int_abs of_int_less_1_iff)
  then show ?thesis by simp
qed



lemma fl_normal:
  assumes "2 powi e \<le> \<bar>x\<bar>" and "\<bar>x\<bar> < 2 powi (e + 1)" and "- 1022 \<le> e"
    and "roundEven (x / 2 powi (e - 52)) = m"
    and "\<bar>of_int m * 2 powi (e - 52)\<bar> < (2::rat) ^ 1024"
  shows "fl x = Fin (of_int m * 2 powi (e - 52))"
proof -
  have "(0::rat) < 2 powi e"
    by simp
  then have "0 < \<bar>x\<bar>"
    using assms(1) by linarith
  then have nz: "x \<noteq> 0"
    by simp
  have e: "max (ilog2 \<bar>x\<bar>) (- 1022) = e"
    using ilog2_unique[OF assms(1,2)] assms(3) by simp
  have "\<not> 2 ^ 1024 \<le> of_int m * (2::rat) powi (e - 52)"
    "\<not> of_int m * (2::rat) powi (e - 52) \<le> - (2 ^ 1024)"
    using assms(5) by linarith+
  then show ?thesis
    using nz e assms(4) by (simp add: fl_def Let_def)
qed

lemma fl_bound:
  assumes "0 \<le> x" and "x \<le> B" and "B \<le> 2 ^ 100"
  shows "\<exists>y. fl x = Fin y \<and> 0 \<le> y \<and> y \<le> B * (1000001 / 1000000) + 1 / 1000000"
proof (cases "x = 0")
  case True
  then show ?thesis
    using assms by (simp add: fl_def)
next
  case False
  then have pos: "0 < x"
    using assms(1) by simp
  define e where "e = max (ilog2 \<bar>x\<bar>) (- 1022)"
  define q :: rat where "q = 2 powi (e - 52)"
  define y where "y = of_int (roundEven (x / q)) * q"
  define c :: rat where "c = 1 / 2 ^ 52"
  define d :: rat where "d = 1 / 2 ^ 1074"
  have c: "0 \<le> c" "c \<le> 1 / 1000000"
    by (simp_all add: c_def)
  have d: "0 \<le> d" "d \<le> 1 / 1000000"
    by (simp_all add: d_def)
  have qpos: "0 < q"
    by (simp add: q_def)
  have small: "q \<le> x * c + d"
  proof (cases "- 1022 \<le> ilog2 \<bar>x\<bar>")
    case True
    then have "e = ilog2 x"
      using pos by (simp add: e_def)
    then have "q = 2 powi ilog2 x * c"
      by (simp add: q_def c_def power_int_diff)
    moreover have "2 powi ilog2 x \<le> x"
      using ilog2_bounds[OF pos] by simp
    ultimately have "q \<le> x * c"
      using c(1) by (simp add: mult_right_mono)
    then show ?thesis
      using d(1) by linarith
  next
    case False
    then have "e = - 1022"
      by (simp add: e_def)
    then have "q = d"
      by (simp add: q_def d_def power_int_minus_divide)
    moreover have "0 \<le> x * c"
      using pos c(1) by simp
    ultimately show ?thesis
      by linarith
  qed
  have xc: "x * c \<le> x * (1 / 1000000)"
    using pos c(2) by (intro mult_left_mono) simp_all
  have close: "\<bar>of_int (roundEven (x / q)) - x / q\<bar> \<le> 1 / 2"
    by (rule roundEven_close)
  have "0 \<le> x / q"
    using pos qpos by simp
  then have m0: "0 \<le> roundEven (x / q)"
    by (rule roundEven_nonneg)
  then have y0: "0 \<le> y"
    using qpos by (simp add: y_def)
  have "of_int (roundEven (x / q)) \<le> x / q + 1 / 2"
    using close by linarith
  then have "y \<le> (x / q + 1 / 2) * q"
    unfolding y_def using qpos by (intro mult_right_mono) simp_all
  also have "\<dots> = x + q / 2"
    using qpos by (simp add: field_simps)
  finally have "y \<le> x + q / 2" .
  then have yx: "y \<le> x * (1000001 / 1000000) + 1 / 1000000"
    using small xc d(2) pos by linarith
  have yB: "y \<le> B * (1000001 / 1000000) + 1 / 1000000"
    using yx assms(2) by linarith
  define T :: rat where "T = 2 ^ 100"
  have T: "1 \<le> T" "2 * T < 2 ^ 1024"
    by (simp_all add: T_def)
  have "B \<le> T"
    using assms(3) by (simp add: T_def)
  then have "y \<le> 2 * T"
    using yB T(1) by linarith
  then have "y < 2 ^ 1024"
    using T(2) by (rule le_less_trans)
  then have "\<not> 2 ^ 1024 \<le> y" "\<not> y \<le> - (2 ^ 1024)"
    using y0 by simp_all
  then have "fl x = Fin y"
    using False by (simp add: fl_def Let_def e_def[symmetric] q_def[symmetric] y_def[symmetric])
  then show ?thesis
    using y0 yB by blast
qed

lemma fl_nat:
  assumes "n \<le> 2 ^ 53"
  shows "fl (of_nat n) = Fin (of_nat n)"
proof (cases "n = 0")
  case True
  then show ?thesis by (simp add: fl_def)
next
  case False
  define x :: rat where "x = of_nat n"
  have pos: "0 < x"
    using False by (simp add: x_def)
  have "(of_nat n :: rat) \<le> of_nat (2 ^ 53)"
    using assms by (simp only: of_nat_le_iff)
  then have le: "x \<le> 2 ^ 53"
    by (simp add: x_def)
  define e where "e = max (ilog2 \<bar>x\<bar>) (- 1022)"
  define q :: rat where "q = 2 powi (e - 52)"
  have lo: "2 powi ilog2 x \<le> x"
    using ilog2_bounds[OF pos] by simp
  have "1 \<le> x"
    using False by (simp add: x_def)
  then have "x < 2 powi (ilog2 x + 1)"
    using ilog2_bounds[OF pos] by simp
  have i0: "0 \<le> ilog2 x"
  proof (rule ccontr)
    assume "\<not> 0 \<le> ilog2 x"
    then have "ilog2 x + 1 \<le> 0" by simp
    then have "(2::rat) powi (ilog2 x + 1) \<le> 2 powi 0"
      by (intro power_int_increasing) simp_all
    then show False
      using \<open>x < 2 powi (ilog2 x + 1)\<close> \<open>1 \<le> x\<close> by simp
  qed
  have i53: "ilog2 x \<le> 53"
  proof (rule ccontr)
    assume "\<not> ilog2 x \<le> 53"
    then have "54 \<le> ilog2 x" by simp
    then have "(2::rat) powi 54 \<le> 2 powi ilog2 x"
      by (intro power_int_increasing) simp_all
    then show False
      using lo le by simp
  qed
  have e: "e = ilog2 x"
    using i0 pos by (simp add: e_def)
  have "\<exists>k. x / q = of_int k"
  proof (cases "ilog2 x = 53")
    case True
    then have "(2::rat) ^ 53 \<le> x"
      using lo by simp
    then have "x = 2 ^ 53"
      using le by simp
    moreover have "q = 2"
      using True e by (simp add: q_def)
    ultimately have "x / q = of_int (2 ^ 52)"
      by simp
    then show ?thesis by blast
  next
    case False
    then have "0 \<le> 52 - e"
      using i53 e by simp
    have "e - 52 = - (52 - e)"
      by simp
    then have "q = inverse (2 powi (52 - e))"
      unfolding q_def by (simp only: power_int_minus)
    then have "x / q = x * 2 powi (52 - e)"
      by (simp add: divide_inverse)
    also have "\<dots> = of_int (int n * 2 ^ nat (52 - e))"
      using \<open>0 \<le> 52 - e\<close> by (simp add: x_def power_int_nonneg_exp)
    finally show ?thesis by blast
  qed
  then obtain k where k: "x / q = of_int k"
    by blast
  have qpos: "0 < q"
    by (simp add: q_def)
  have y: "of_int (roundEven (x / q)) * q = x"
    using k qpos by (simp add: roundEven_of_int nonzero_divide_eq_eq)
  have nz: "x \<noteq> 0"
    using pos by simp
  have range: "\<not> 2 ^ 1024 \<le> x" "\<not> x \<le> - (2 ^ 1024)"
    using le pos by simp_all
  have "fl x = Fin x"
    using nz range by (simp add: fl_def Let_def e_def[symmetric] q_def[symmetric] y)
  then show ?thesis
    by (simp add: x_def)
qed

lemma fl_tie_2_53: "fl (2 ^ 53 + 1) = Fin (2 ^ 53)"
proof -
  have r: "roundEven ((2 ^ 53 + 1) / 2) = 2 ^ 52"
    by code_simp
  show ?thesis
    using fl_normal[of 53 "2 ^ 53 + 1" "2 ^ 52"] r by simp
qed










lemma sub_7_8: "jadd (Fin 7) (Fin (- 8)) = Fin (- 1)"
proof -
  have r: "roundEven ((7 + (- 8)) * 2 ^ 52) = - 4503599627370496"
    by code_simp
  show ?thesis
    using fl_normal[of "0" "7 + (- 8)" "- 4503599627370496"] r
    by (simp add: power_int_minus_divide)
qed

lemma div_m1_8: "jdiv (Fin (- 1)) (Fin 8) = Fin (- 1 / 8)"
proof -
  have r: "roundEven (((- 1) / 8) * 2 ^ 55) = - 4503599627370496"
    by code_simp
  show ?thesis
    using fl_normal[of "- 3" "(- 1) / 8" "- 4503599627370496"] r
    by (simp add: power_int_minus_divide)
qed

lemma mul_m1_8_100: "jmul (Fin (- 1 / 8)) (Fin 100) = Fin (- 25 / 2)"
proof -
  have r: "roundEven (((- 1 / 8) * 100) * 2 ^ 49) = - 7036874417766400"
    by code_simp
  show ?thesis
    using fl_normal[of "3" "(- 1 / 8) * 100" "- 7036874417766400"] r
    by (simp add: power_int_minus_divide)
qed

lemma div_m12_100: "jdiv (Fin (- 12)) (Fin 100) = Fin (- 1080863910568919 / 9007199254740992)"
proof -
  have r: "roundEven (((- 12) / 100) * 2 ^ 56) = - 8646911284551352"
    by code_simp
  show ?thesis
    using fl_normal[of "- 4" "(- 12) / 100" "- 8646911284551352"] r
    by (simp add: power_int_minus_divide)
qed

lemma div_23_40: "jdiv (Fin 23) (Fin 40) = Fin (2589569785738035 / 4503599627370496)"
proof -
  have r: "roundEven ((23 / 40) * 2 ^ 53) = 5179139571476070"
    by code_simp
  show ?thesis
    using fl_normal[of "- 1" "23 / 40" "5179139571476070"] r
    by (simp add: power_int_minus_divide)
qed

lemma mul_23_40_100: "jmul (Fin (2589569785738035 / 4503599627370496)) (Fin 100) = Fin (8092405580431359 / 140737488355328)"
proof -
  have r: "roundEven (((2589569785738035 / 4503599627370496) * 100) * 2 ^ 47) = 8092405580431359"
    by code_simp
  show ?thesis
    using fl_normal[of "5" "(2589569785738035 / 4503599627370496) * 100" "8092405580431359"] r
    by (simp add: power_int_minus_divide)
qed

lemma div_57_100: "jdiv (Fin 57) (Fin 100) = Fin (5134103575202365 / 9007199254740992)"
proof -
  have r: "roundEven ((57 / 100) * 2 ^ 53) = 5134103575202365"
    by code_simp
  show ?thesis
    using fl_normal[of "- 1" "57 / 100" "5134103575202365"] r
    by (simp add: power_int_minus_divide)
qed

lemma sub_29_40: "jadd (Fin 29) (Fin (- 40)) = Fin (- 11)"
proof -
  have r: "roundEven ((29 + (- 40)) * 2 ^ 49) = - 6192449487634432"
    by code_simp
  show ?thesis
    using fl_normal[of "3" "29 + (- 40)" "- 6192449487634432"] r
    by (simp add: power_int_minus_divide)
qed

lemma div_m11_40: "jdiv (Fin (- 11)) (Fin 40) = Fin (- 2476979795053773 / 9007199254740992)"
proof -
  have r: "roundEven (((- 11) / 40) * 2 ^ 54) = - 4953959590107546"
    by code_simp
  show ?thesis
    using fl_normal[of "- 2" "(- 11) / 40" "- 4953959590107546"] r
    by (simp add: power_int_minus_divide)
qed

lemma mul_m11_40_100: "jmul (Fin (- 2476979795053773 / 9007199254740992)) (Fin 100) = Fin (- 7740561859543041 / 281474976710656)"
proof -
  have r: "roundEven (((- 2476979795053773 / 9007199254740992) * 100) * 2 ^ 48) = - 7740561859543041"
    by code_simp
  show ?thesis
    using fl_normal[of "4" "(- 2476979795053773 / 9007199254740992) * 100" "- 7740561859543041"] r
    by (simp add: power_int_minus_divide)
qed

lemma add_0_1: "jadd (Fin 0) (Fin 1) = Fin 1"
proof -
  have r: "roundEven ((0 + 1) * 2 ^ 52) = 4503599627370496"
    by code_simp
  show ?thesis
    using fl_normal[of "0" "0 + 1" "4503599627370496"] r
    by (simp add: power_int_minus_divide)
qed

lemma add_1_2: "jadd (Fin 1) (Fin 2) = Fin 3"
proof -
  have r: "roundEven ((1 + 2) * 2 ^ 51) = 6755399441055744"
    by code_simp
  show ?thesis
    using fl_normal[of "1" "1 + 2" "6755399441055744"] r
    by (simp add: power_int_minus_divide)
qed

lemma div_3_2: "jdiv (Fin 3) (Fin 2) = Fin (3 / 2)"
proof -
  have r: "roundEven ((3 / 2) * 2 ^ 52) = 6755399441055744"
    by code_simp
  show ?thesis
    using fl_normal[of "0" "3 / 2" "6755399441055744"] r
    by (simp add: power_int_minus_divide)
qed

lemma mul_3_2_100: "jmul (Fin (3 / 2)) (Fin 100) = Fin 150"
proof -
  have r: "roundEven (((3 / 2) * 100) * 2 ^ 45) = 5277655813324800"
    by code_simp
  show ?thesis
    using fl_normal[of "7" "(3 / 2) * 100" "5277655813324800"] r
    by (simp add: power_int_minus_divide)
qed



section \<open>Properties of the calculation engine\<close>

lemma falsy_absent: "falsy d = absent d"
  by (cases d) (auto simp: absent_def)






lemma not_absent: "\<not> absent d \<Longrightarrow> \<not> (falsy d \<or> d = Num (Fin 0))"
  by (auto simp: falsy_absent absent_def)

lemma turnoverRate_formula:
  "\<not> absent d \<Longrightarrow>
   turnoverRate x d = Math_round (jmul (jdiv (toNumber x) (toNumber d)) (Fin 100))"
  using not_absent[of d] by (simp add: turnoverRate_def)

lemma fundingRatio_formula:
  "\<not> absent d \<Longrightarrow>
   fundingRatio x d
     = jdiv (Math_round (jmul (jdiv (toNumber x) (toNumber d)) (Fin 100))) (Fin 100)"
  using not_absent[of d] by (simp add: fundingRatio_def)

lemma corePercentage_formula:
  "\<not> absent d \<Longrightarrow>
   corePercentage x d = Math_round (jmul (jdiv (toNumber x) (toNumber d)) (Fin 100))"
  using not_absent[of d] by (simp add: corePercentage_def)

lemma growthRate_formula:
  "\<not> absent d \<Longrightarrow>
   growthRate x d
     = Math_round (jmul (jdiv (jsub (toNumber x) (toNumber d)) (toNumber d)) (Fin 100))"
  using not_absent[of d] by (simp add: growthRate_def)

lemma average_formula:
  "filter validValue vs \<noteq> [] \<Longrightarrow>
   average vs
     = jdiv (Math_round (jmul
         (jdiv (fold (\<lambda>val sum. jadd sum (toNumber val)) (filter validValue vs) (Fin 0))
               (Fin (of_nat (length (filter validValue vs)))))
         (Fin 100))) (Fin 100)"
  by (simp add: average_def Let_def)





lemma not_absent_fin: "b \<noteq> 0 \<Longrightarrow> \<not> absent (Num (Fin b))"
  by (simp add: absent_def)







lemma growthRate_7_8: "growthRate (Num (Fin 7)) (Num (Fin 8)) = Fin (- 12)"
proof -
  have "growthRate (Num (Fin 7)) (Num (Fin 8))
        = Math_round (jmul (jdiv (jsub (Fin 7) (Fin 8)) (Fin 8)) (Fin 100))"
    by (simp add: growthRate_formula not_absent_fin)
  also have "jsub (Fin 7) (Fin 8) = jadd (Fin 7) (Fin (- 8))"
    by (simp only: jsub_def jneg.simps)
  also have "Math_round (jmul (jdiv (jadd (Fin 7) (Fin (- 8))) (Fin 8)) (Fin 100))
             = Math_round (Fin (- 25 / 2))"
    by (simp only: sub_7_8 div_m1_8 mul_m1_8_100)
  also have "\<dots> = Fin (- 12)"
    by code_simp
  finally show ?thesis .
qed

text \<open>
  The operations round as doubles do: \<open>23 / 40 * 100\<close> is below 57.5 and \<open>(29 - 40) / 40 *
  100\<close> is below -27.5, where the exact values are these ties.
\<close>

lemma turnoverRate_23_40: "turnoverRate (Num (Fin 23)) (Num (Fin 40)) = Fin 57"
proof -
  have "turnoverRate (Num (Fin 23)) (Num (Fin 40))
        = Math_round (jmul (jdiv (Fin 23) (Fin 40)) (Fin 100))"
    by (simp add: turnoverRate_formula not_absent_fin)
  also have "\<dots> = Math_round (Fin (8092405580431359 / 140737488355328))"
    by (simp only: div_23_40 mul_23_40_100)
  also have "\<dots> = Fin 57"
    by code_simp
  finally show ?thesis .
qed

lemma growthRate_29_40: "growthRate (Num (Fin 29)) (Num (Fin 40)) = Fin (- 28)"
proof -
  have "growthRate (Num (Fin 29)) (Num (Fin 40))
        = Math_round (jmul (jdiv (jsub (Fin 29) (Fin 40)) (Fin 40)) (Fin 100))"
    by (simp add: growthRate_formula not_absent_fin)
  also have "jsub (Fin 29) (Fin 40) = jadd (Fin 29) (Fin (- 40))"
    by (simp only: jsub_def jneg.simps)
  also have "Math_round (jmul (jdiv (jadd (Fin 29) (Fin (- 40))) (Fin 40)) (Fin 100))
             = Math_round (Fin (- 7740561859543041 / 281474976710656))"
    by (simp only: sub_29_40 div_m11_40 mul_m11_40_100)
  also have "\<dots> = Fin (- 28)"
    by code_simp
  finally show ?thesis .
qed






text \<open>
  C9, as the claim states it, fails: \<open>growthRate(7, 8)\<close> rounds \<open>-12.5\<close> to \<open>-12\<close>, and
  rounding half away from zero gives \<open>-13\<close>.
\<close>

theorem growthRate_not_half_away_counterexample:
  "growthRate (Num (Fin 7)) (Num (Fin 8)) \<noteq> Fin (roundHalfAway ((7 - 8) / 8 * 100))"
proof -
  have "roundHalfAway ((7 - 8) / 8 * 100) = - 13"
    by code_simp
  then show ?thesis
    by (simp add: growthRate_7_8)
qed

lemma Math_round_halfUp: "Math_round x = halfUp x"
  by (cases x) (simp_all add: roundHalfUp_def)

lemma roundHalfUp_nonneg: "0 \<le> z \<Longrightarrow> roundHalfUp z = roundHalfAway z"
  by (simp add: roundHalfUp_def roundHalfAway_def)

lemma roundHalfAway_neg: "z < 0 \<Longrightarrow> roundHalfAway z = of_int \<lceil>z + 1 / 2\<rceil> - 1"
proof -
  assume "z < 0"
  then have "roundHalfAway z = - of_int \<lfloor>- z + 1 / 2\<rfloor>"
    by (simp add: roundHalfAway_def)
  also have "- z + 1 / 2 = - (z + 1 / 2 - 1)"
    by simp
  also have "- (of_int \<lfloor>- (z + 1 / 2 - 1)\<rfloor> :: rat) = of_int \<lceil>z + 1 / 2 - 1\<rceil>"
    by (simp only: ceiling_def of_int_minus)
  also have "\<dots> = of_int \<lceil>z + 1 / 2\<rceil> - 1"
    by (simp only: ceiling_diff_one of_int_diff of_int_1)
  finally show ?thesis .
qed

lemma roundHalfUp_neg_tie:
  "z < 0 \<Longrightarrow> z + 1 / 2 = of_int \<lfloor>z + 1 / 2\<rfloor> \<Longrightarrow> roundHalfUp z = roundHalfAway z + 1"
  by (simp add: roundHalfAway_neg roundHalfUp_def ceiling_altdef)

lemma roundHalfUp_neg_no_tie:
  "z < 0 \<Longrightarrow> z + 1 / 2 \<noteq> of_int \<lfloor>z + 1 / 2\<rfloor> \<Longrightarrow> roundHalfUp z = roundHalfAway z"
  by (simp add: roundHalfAway_neg roundHalfUp_def ceiling_altdef)

text \<open>
  C9, amended.  Every calculation rounds the value its formula has in double arithmetic
  to the nearest integer, a tie going towards plus infinity: \<open>growthRate\<close>,
  \<open>turnoverRate\<close> and \<open>corePercentage\<close> return that integer, \<open>fundingRatio\<close> and \<open>average\<close>
  round the hundredfold value and divide it by 100.  That is rounding half away from
  zero except at a negative tie, where it is one more.
\<close>

theorem calculations_round_half_up:
  "(p \<noteq> 0 \<longrightarrow>
      growthRate (Num (Fin c)) (Num (Fin p))
        = halfUp (jmul (jdiv (jsub (Fin c) (Fin p)) (Fin p)) (Fin 100))
    \<and> turnoverRate (Num (Fin c)) (Num (Fin p)) = halfUp (jmul (jdiv (Fin c) (Fin p)) (Fin 100))
    \<and> corePercentage (Num (Fin c)) (Num (Fin p)) = halfUp (jmul (jdiv (Fin c) (Fin p)) (Fin 100))
    \<and> fundingRatio (Num (Fin c)) (Num (Fin p))
        = jdiv (halfUp (jmul (jdiv (Fin c) (Fin p)) (Fin 100))) (Fin 100))
   \<and> (filter validValue vs \<noteq> [] \<longrightarrow>
        average vs
          = jdiv (halfUp (jmul
              (jdiv (fold (\<lambda>val sum. jadd sum (toNumber val)) (filter validValue vs) (Fin 0))
                    (Fin (of_nat (length (filter validValue vs)))))
              (Fin 100))) (Fin 100))
   \<and> halfUp (Fin z) = Fin (roundHalfUp z)
   \<and> (0 \<le> z \<longrightarrow> roundHalfUp z = roundHalfAway z)
   \<and> (z < 0 \<and> z + 1 / 2 = of_int \<lfloor>z + 1 / 2\<rfloor> \<longrightarrow> roundHalfUp z = roundHalfAway z + 1)
   \<and> (z < 0 \<and> z + 1 / 2 \<noteq> of_int \<lfloor>z + 1 / 2\<rfloor> \<longrightarrow> roundHalfUp z = roundHalfAway z)"
proof -
  have f: "p \<noteq> 0 \<Longrightarrow>
      growthRate (Num (Fin c)) (Num (Fin p))
        = halfUp (jmul (jdiv (jsub (Fin c) (Fin p)) (Fin p)) (Fin 100))
    \<and> turnoverRate (Num (Fin c)) (Num (Fin p)) = halfUp (jmul (jdiv (Fin c) (Fin p)) (Fin 100))
    \<and> corePercentage (Num (Fin c)) (Num (Fin p)) = halfUp (jmul (jdiv (Fin c) (Fin p)) (Fin 100))
    \<and> fundingRatio (Num (Fin c)) (Num (Fin p))
        = jdiv (halfUp (jmul (jdiv (Fin c) (Fin p)) (Fin 100))) (Fin 100)"
    using growthRate_formula[of "Num (Fin p)" "Num (Fin c)"]
      turnoverRate_formula[of "Num (Fin p)" "Num (Fin c)"]
      corePercentage_formula[of "Num (Fin p)" "Num (Fin c)"]
      fundingRatio_formula[of "Num (Fin p)" "Num (Fin c)"] not_absent_fin[of p]
    by (simp add: Math_round_halfUp del: jadd.simps jdiv.simps jmul.simps)
  have a: "average vs
          = jdiv (halfUp (jmul
              (jdiv (fold (\<lambda>val sum. jadd sum (toNumber val)) (filter validValue vs) (Fin 0))
                    (Fin (of_nat (length (filter validValue vs)))))
              (Fin 100))) (Fin 100)" if "filter validValue vs \<noteq> []"
    using average_formula[OF that] by (simp only: Math_round_halfUp)
  have h: "halfUp (Fin z) = Fin (roundHalfUp z)"
    by simp
  show ?thesis
    using f a h roundHalfUp_nonneg[of z] roundHalfUp_neg_tie[of z] roundHalfUp_neg_no_tie[of z]
    by blast
qed

theorem calculations_round_half_up_witness:
  "growthRate (Num (Fin 7)) (Num (Fin 8)) = halfUp (Fin (- 25 / 2))
   \<and> halfUp (Fin (- 25 / 2)) = Fin (- 12)
   \<and> roundHalfUp (- 25 / 2) = roundHalfAway (- 25 / 2) + 1
   \<and> roundHalfUp (25 / 2) = roundHalfAway (25 / 2)
   \<and> roundHalfUp (- 1 / 3) = roundHalfAway (- 1 / 3)
   \<and> average [Num (Fin 1), Nul, Num (Fin 2)] = jdiv (halfUp (Fin 150)) (Fin 100)"
proof -
  let ?vs = "[Num (Fin 1), Nul, Num (Fin 2)]"
  have "jmul (jdiv (fold (\<lambda>val sum. jadd sum (toNumber val)) (filter validValue ?vs) (Fin 0))
                   (Fin (of_nat (length (filter validValue ?vs))))) (Fin 100)
        = jmul (jdiv (jadd (jadd (Fin 0) (Fin 1)) (Fin 2)) (Fin 2)) (Fin 100)"
    by (simp del: jadd.simps jdiv.simps jmul.simps)
  also have "\<dots> = Fin 150"
    by (simp only: add_0_1 add_1_2 div_3_2 mul_3_2_100)
  finally have v:
    "jmul (jdiv (fold (\<lambda>val sum. jadd sum (toNumber val)) (filter validValue ?vs) (Fin 0))
                (Fin (of_nat (length (filter validValue ?vs))))) (Fin 100) = Fin 150" .
  have "filter validValue ?vs \<noteq> []"
    by simp
  with calculations_round_half_up[of 8 7 ?vs 0]
  have "average ?vs
        = jdiv (halfUp (jmul
            (jdiv (fold (\<lambda>val sum. jadd sum (toNumber val)) (filter validValue ?vs) (Fin 0))
                  (Fin (of_nat (length (filter validValue ?vs)))))
            (Fin 100))) (Fin 100)"
    by blast
  then have avg: "average ?vs = jdiv (halfUp (Fin 150)) (Fin 100)"
    by (simp only: v)
  have e: "jmul (jdiv (jsub (Fin 7) (Fin 8)) (Fin 8)) (Fin 100) = Fin (- 25 / 2)"
    by (simp only: jsub_def jneg.simps sub_7_8 div_m1_8 mul_m1_8_100)
  have r: "roundHalfUp (- 25 / 2) = - 12"
    by code_simp
  have t: "(- 25 / 2 :: rat) + 1 / 2 = of_int \<lfloor>(- 25 / 2 :: rat) + 1 / 2\<rfloor>"
    by code_simp
  have n: "(- 1 / 3 :: rat) + 1 / 2 \<noteq> of_int \<lfloor>(- 1 / 3 :: rat) + 1 / 2\<rfloor>"
    by code_simp
  have "(8::rat) \<noteq> 0"
    by simp
  with calculations_round_half_up[of 8 7 "[]" 0]
  have "growthRate (Num (Fin 7)) (Num (Fin 8))
        = halfUp (jmul (jdiv (jsub (Fin 7) (Fin 8)) (Fin 8)) (Fin 100))"
    by blast
  then have "growthRate (Num (Fin 7)) (Num (Fin 8)) = halfUp (Fin (- 25 / 2))"
    by (simp only: e)
  moreover have "halfUp (Fin (- 25 / 2)) = Fin (- 12)
        \<and> roundHalfUp (- 25 / 2) = roundHalfAway (- 25 / 2) + 1"
    using calculations_round_half_up[of 8 7 "[]" "- 25 / 2"] r t by simp
  moreover have "roundHalfUp (25 / 2) = roundHalfAway (25 / 2)"
    using calculations_round_half_up[of 8 7 "[]" "25 / 2"] by simp
  moreover have "roundHalfUp (- 1 / 3) = roundHalfAway (- 1 / 3)"
    using calculations_round_half_up[of 8 7 "[]" "- 1 / 3"] n by simp
  moreover note avg
  ultimately show ?thesis
    by blast
qed

section \<open>Properties of the field configuration factory\<close>

lemmas str_defs = js_def toLowerCase_def lowerUnit_def startsWith_def glyph_def
  trim_def isSpace_def

lemma includes_str_subset: "includes_str s sub \<Longrightarrow> set sub \<subseteq> set s"
proof (induction s)
  case Nil
  then show ?case by simp
next
  case (Cons c cs)
  from Cons.prems have "startsWith (c # cs) sub \<or> includes_str cs sub"
    by simp
  then show ?case
  proof
    assume "startsWith (c # cs) sub"
    then have "take (length sub) (c # cs) = sub"
      by (simp add: startsWith_def)
    then have "set sub \<subseteq> set (c # cs)"
      by (metis set_take_subset)
    then show ?thesis .
  next
    assume "includes_str cs sub"
    then show ?thesis
      using Cons.IH by auto
  qed
qed

lemma toLowerCase_no_capital: "c \<in> set (toLowerCase s) \<Longrightarrow> \<not> (65 \<le> c \<and> c \<le> 90)"
  by (auto simp: toLowerCase_def lowerUnit_def split: if_splits)

lemma lowered_never_includes_capital:
  assumes "c \<in> set sub" and "65 \<le> c" and "c \<le> 90"
  shows "\<not> includes_str (toLowerCase s) sub"
  using assms includes_str_subset toLowerCase_no_capital by blast

lemma lowered_no_YesNo: "\<not> includes_str (toLowerCase s) (js ''(Yes/No)'')"
  by (rule lowered_never_includes_capital[of 89]) (simp_all add: js_def)

lemma lowered_no_Check: "\<not> includes_str (toLowerCase s) (js ''Check all that apply'')"
  by (rule lowered_never_includes_capital[of 67]) (simp_all add: js_def)

lemma YesNo_not_empty: "js ''(Yes/No)'' \<noteq> []"
  by (simp add: js_def)

text \<open>
  The multi-part rule looks for \<open>(Yes/No)\<close>, with its capital letters, in the
  lower-cased method text: it never fires.
\<close>

lemma createFieldConfig_never_multi_part:
  "cfg_type (createFieldConfig indicatorName measurementMethod) \<noteq> multi_part"
proof -
  define lowered where "lowered = (case measurementMethod of None \<Rightarrow> [] | Some m \<Rightarrow> toLowerCase m)"
  have no: "\<not> includes_str lowered (js ''(Yes/No)'')"
    by (cases measurementMethod) (simp_all add: lowered_def lowered_no_YesNo YesNo_not_empty)
  show ?thesis
    unfolding createFieldConfig_def Let_def lowered_def[symmetric]
    using no
    by (simp add: turnoverConfig_def fundingConfig_def choiceConfig_def scaleConfig_def
          meetingsConfig_def numberConfig_def percentageConfig_def textConfig_def config_def)
qed

text \<open>
  C1.  The claim: a method text with both a \<open>(Yes/No)\<close> and a \<open>Check all that apply\<close>
  marker, under an indicator text outside the turnover and funding rules, gives the
  multi-part configuration.  The code at such an input: the plain yes/no radio
  configuration.
\<close>

theorem createFieldConfig_both_markers_gives_radio:
  "includes_str
     (js ''Does your organization offer this? (Yes/No) If yes, which? (Check all that apply)'')
     (js ''(Yes/No)'')
   \<and> includes_str
     (js ''Does your organization offer this? (Yes/No) If yes, which? (Check all that apply)'')
     (js ''Check all that apply'')
   \<and> createFieldConfig (js ''Employee program'')
       (Some (js ''Does your organization offer this? (Yes/No) If yes, which? (Check all that apply)''))
     = choiceConfig RADIO yesNo
   \<and> cfg_type (choiceConfig RADIO yesNo) = Simple RADIO
   \<and> cfg_fields (choiceConfig RADIO yesNo) = []"
  by (simp add: createFieldConfig_def choiceConfig_def config_def str_defs)

text \<open>
  C8.  The claim: an indicator text with \<open>wellness\<close> or \<open>benefit\<close> and a method text with
  \<open>Check all that apply\<close> give the checkbox over the employee-benefits catalog.  The code
  at such an input: the generic checkbox over the collaboration-types catalog.
\<close>

theorem createFieldConfig_wellness_gives_collaboration_options:
  "includes_str (toLowerCase (js ''Employee wellness benefits'')) (js ''wellness'')
   \<and> includes_str (js ''Check all that apply'') (js ''Check all that apply'')
   \<and> createFieldConfig (js ''Employee wellness benefits'') (Some (js ''Check all that apply''))
     = choiceConfig CHECKBOX collaborationTypes
   \<and> cfg_options (choiceConfig CHECKBOX collaborationTypes) = Some collaborationTypes
   \<and> collaborationTypes \<noteq> employeeBenefits"
  by (simp add: createFieldConfig_def extractCheckboxOptions_def choiceConfig_def config_def
        str_defs collaborationTypes_def employeeBenefits_def)

section \<open>Properties of the indicator compiler\<close>

text \<open>
  C10.  A \<open>null\<close>, \<open>undefined\<close> or empty row set gives the empty indicator list, not the
  missing-column error.
\<close>

theorem generateStandardizedFields_no_rows:
  "generateStandardizedFields NullData = Inr []
   \<and> generateStandardizedFields UndefinedData = Inr []
   \<and> generateStandardizedFields (Rows []) = Inr []"
  by simp

text \<open>
  C3.  The claim: without a method or notes column the method text and the description
  are empty.  The code at a row set with neither column and a column named \<open>undefined\<close>:
  the cell of that column is the method text and the description, and the field is a
  number field.
\<close>

theorem generateStandardizedFields_reads_undefined_column:
  "find isMethodKey (keys [(js ''Indicator'', js ''Staff morale''),
                           (js ''undefined'', js ''how many'')]) = None
   \<and> find isNotesKey (keys [(js ''Indicator'', js ''Staff morale''),
                            (js ''undefined'', js ''how many'')]) = None
   \<and> generateStandardizedFields
        (Rows [[(js ''Indicator'', js ''Staff morale''), (js ''undefined'', js ''how many'')]])
     = Inr [\<lparr>ind_id = js ''indicator_0'', ind_title = js ''Staff morale'',
             ind_description = js ''how many'', ind_tier = 2,
             ind_fields =
               [mainField (js ''indicator_0'') NUMBER (js ''Staff morale'') (js ''how many'')
                  numberConfig]\<rparr>]"
  by (simp add: keys_def isIndicatorKey_def isMethodKey_def isNotesKey_def rowIndicator_def
        getProp_def propertyKey_def orEmpty_def determineTier_def createFieldConfig_def
        expandFields_def numberConfig_def config_def digits.simps str_defs Let_def)

section \<open>Properties of the scores\<close>

lemma counter_0: "counter 0 = Fin 0"
  by (simp add: counter_def)

lemma counter_inc: "jadd (counter n) (Fin 1) = counter (Suc n)"
proof (cases "n < 2 ^ 53")
  case True
  then have "Suc n \<le> 2 ^ 53"
    by simp
  then have "fl (of_nat (Suc n)) = Fin (of_nat (Suc n))"
    by (rule fl_nat)
  moreover have "min n (2 ^ 53) = n" "min (Suc n) (2 ^ 53) = Suc n"
    using True by simp_all
  ultimately show ?thesis
    by (simp add: counter_def add.commute)
next
  case False
  then have "min n (2 ^ 53) = (2 ^ 53 :: nat)" "min (Suc n) (2 ^ 53) = (2 ^ 53 :: nat)"
    by simp_all
  then show ?thesis
    using fl_tie_2_53 by (simp add: counter_def)
qed


lemma jgreater_counter: "jgreater (counter n) (Fin 0) = (0 < n)"
  by (simp add: counter_def)

lemma fold_countField:
  "fold (countField responses) fs (counter t, counter c) =
     (counter (t + length (filter (\<lambda>f. fld_type f \<noteq> CALCULATED) fs)),
      counter (c + length (filter (\<lambda>f. answered (responses (fld_id f)))
                            (filter (\<lambda>f. fld_type f \<noteq> CALCULATED) fs))))"
proof (induction fs arbitrary: t c)
  case Nil
  then show ?case by simp
next
  case (Cons f fs)
  show ?case
    using Cons.IH[of "Suc t" "Suc c"] Cons.IH[of "Suc t" c] Cons.IH[of t c]
    by (simp add: countField_def counter_inc del: jadd.simps)
qed

lemma countFields_eq:
  "countFields responses inds =
     (counter (length (userFields inds)),
      counter (length (filter (\<lambda>f. answered (responses (fld_id f))) (userFields inds))))"
proof -
  have "fold (\<lambda>indicator. fold (countField responses) (ind_fields indicator)) inds s
        = fold (countField responses) (concat (map ind_fields inds)) s" for s
    by (induction inds arbitrary: s) simp_all
  then have "countFields responses inds
             = fold (countField responses) (concat (map ind_fields inds)) (counter 0, counter 0)"
    by (simp add: countFields_def counter_0)
  then show ?thesis
    by (simp add: fold_countField userFields_def)
qed

lemma percentOf_counter:
  "percentOf (counter k) (counter n)
     = (if n = 0 then Fin 0 else Math_round (jmul (jdiv (counter k) (counter n)) (Fin 100)))"
  by (simp add: percentOf_def jgreater_counter)

text \<open>A percentage of counters is in range: each operation adds a relative error of at
  most one millionth.\<close>

lemma Math_round_isPercent:
  assumes "0 \<le> y" and "y \<le> 1002 / 10"
  shows "isPercent (Math_round (Fin y))"
proof -
  have "0 \<le> \<lfloor>y + 1 / 2\<rfloor>"
    using assms(1) by simp
  moreover have "\<lfloor>y + 1 / 2\<rfloor> < 101"
    using assms(2) by (simp add: floor_less_iff)
  ultimately show ?thesis
    by (simp add: isPercent_def)
qed

lemma ratio_isPercent:
  fixes a b :: rat
  assumes "0 \<le> a" and "a \<le> b * (1001 / 1000)" and "1 \<le> b"
  shows "isPercent (Math_round (jmul (jdiv (Fin a) (Fin b)) (Fin 100)))"
proof -
  have b: "0 < b" "b \<noteq> 0"
    using assms(3) by simp_all
  have "0 \<le> a / b"
    using assms(1) b by simp
  moreover have "a / b \<le> 1001 / 1000"
    using assms(2) b by (simp add: pos_divide_le_eq mult.commute)
  moreover have "(1001 / 1000 :: rat) \<le> 2 ^ 100"
    by simp
  ultimately obtain y1 where y1: "fl (a / b) = Fin y1" "0 \<le> y1"
    "y1 \<le> 1001 / 1000 * (1000001 / 1000000) + 1 / 1000000"
    using fl_bound[of "a / b" "1001 / 1000"] by blast
  have "0 \<le> y1 * 100"
    using y1(2) by simp
  moreover have "y1 * 100 \<le> 10019 / 100"
    using y1(3) by simp
  moreover have "(10019 / 100 :: rat) \<le> 2 ^ 100"
    by simp
  ultimately obtain y2 where y2: "fl (y1 * 100) = Fin y2" "0 \<le> y2"
    "y2 \<le> (10019 / 100) * (1000001 / 1000000) + 1 / 1000000"
    using fl_bound[of "y1 * 100" "10019 / 100"] by blast
  have "y2 \<le> 1002 / 10"
    using y2(3) by simp
  then have "isPercent (Math_round (Fin y2))"
    using y2(2) by (intro Math_round_isPercent)
  then show ?thesis
    using b y1(1) y2(1) by simp
qed

lemma counter_value:
  obtains v where "counter n = Fin v" and "0 \<le> v" and "v \<le> 2 ^ 53" and "0 < n \<Longrightarrow> 1 \<le> v"
proof
  show "counter n = Fin (of_nat (min n (2 ^ 53)))"
    by (simp add: counter_def)
  show "0 \<le> (of_nat (min n (2 ^ 53)) :: rat)"
    by simp
  have "min n (2 ^ 53) \<le> (2 ^ 53 :: nat)"
    by simp
  then have "(of_nat (min n (2 ^ 53)) :: rat) \<le> of_nat (2 ^ 53)"
    by (simp only: of_nat_le_iff)
  then show "(of_nat (min n (2 ^ 53)) :: rat) \<le> 2 ^ 53"
    by simp
  show "1 \<le> (of_nat (min n (2 ^ 53)) :: rat)" if "0 < n"
  proof -
    have "1 \<le> min n (2 ^ 53)"
      using that by simp
    then have "(of_nat 1 :: rat) \<le> of_nat (min n (2 ^ 53))"
      by (simp only: of_nat_le_iff)
    then show ?thesis
      by simp
  qed
qed

lemma counter_mono:
  assumes "k \<le> n" and "counter k = Fin a" and "counter n = Fin b"
  shows "a \<le> b"
proof -
  have "min k (2 ^ 53) \<le> min n (2 ^ 53)"
    using assms(1) by simp
  then have "(of_nat (min k (2 ^ 53)) :: rat) \<le> of_nat (min n (2 ^ 53))"
    by (simp only: of_nat_le_iff)
  then show ?thesis
    using assms(2,3) by (simp add: counter_def)
qed

lemma percentOf_isPercent:
  assumes "k \<le> n"
  shows "isPercent (percentOf (counter k) (counter n))"
proof (cases "n = 0")
  case True
  then show ?thesis
    by (simp add: percentOf_counter isPercent_def)
next
  case False
  obtain a where a: "counter k = Fin a" "0 \<le> a"
    using counter_value[of k] by blast
  obtain b where b: "counter n = Fin b" "1 \<le> b"
    using counter_value[of n] False by blast
  have "a \<le> b"
    using assms a(1) b(1) by (rule counter_mono)
  then have "a \<le> b * (1001 / 1000)"
    using b(2) by simp
  then have "isPercent (Math_round (jmul (jdiv (Fin a) (Fin b)) (Fin 100)))"
    using a(2) b(2) by (intro ratio_isPercent)
  moreover have "percentOf (counter k) (counter n)
                 = Math_round (jmul (jdiv (Fin a) (Fin b)) (Fin 100))"
    using b(2) by (simp add: a(1) b(1) percentOf_def del: jdiv.simps jmul.simps Math_round.simps)
  ultimately show ?thesis
    by (simp only:)
qed

lemma percentOf_23_40: "percentOf (counter 23) (counter 40) = Fin 57"
proof -
  have "counter 23 = Fin 23" "counter 40 = Fin 40"
    by (simp_all add: counter_def)
  then have "percentOf (counter 23) (counter 40)
        = Math_round (jmul (jdiv (Fin 23) (Fin 40)) (Fin 100))"
    by (simp add: percentOf_def del: jdiv.simps jmul.simps Math_round.simps)
  also have "\<dots> = Math_round (Fin (8092405580431359 / 140737488355328))"
    by (simp only: div_23_40 mul_23_40_100)
  also have "\<dots> = Fin 57"
    by code_simp
  finally show ?thesis .
qed



lemma fold_countResponse:
  "fold countResponse rs (counter t, counter c, counter s) =
     (counter (t + length rs),
      counter (c + length (filter (\<lambda>e. answered (resp_value (snd e))) rs)),
      counter (s + length (filter (\<lambda>e. resp_type (snd e) \<in> set structuredTypes)
                            (filter (\<lambda>e. answered (resp_value (snd e))) rs))))"
proof (induction rs arbitrary: t c s)
  case Nil
  then show ?case by simp
next
  case (Cons r rs)
  show ?case
    using Cons.IH[of "Suc t" "Suc c" "Suc s"] Cons.IH[of "Suc t" "Suc c" s]
      Cons.IH[of "Suc t" c s]
    by (simp add: countResponse_def counter_inc del: jadd.simps)
qed

lemma overall_isPercent:
  assumes "s \<le> c" and "c \<le> t" and "0 < t"
  shows "isPercent (Math_round (jmul
                  (jdiv (jadd (jmul (counter c) (fl (6 / 10)))
                              (jmul (counter s) (fl (4 / 10))))
                        (counter t))
                  (Fin 100)))"
proof -
  obtain vs where vs: "counter s = Fin vs" "0 \<le> vs"
    using counter_value[of s] by blast
  obtain vc where vc: "counter c = Fin vc" "0 \<le> vc" "vc \<le> 2 ^ 53"
    using counter_value[of c] by blast
  obtain vt where vt: "counter t = Fin vt" "1 \<le> vt" "vt \<le> 2 ^ 53"
    using counter_value[of t] assms(3) by blast
  have sc: "vs \<le> vc"
    using assms(1) vs(1) vc(1) by (rule counter_mono)
  have ct: "vc \<le> vt"
    using assms(2) vc(1) vt(1) by (rule counter_mono)
  have big: "(2::rat) ^ 53 * 2 \<le> 2 ^ 100"
    by simp
  obtain y6 where y6: "fl (6 / 10) = Fin y6" "0 \<le> y6" "y6 \<le> 6001 / 10000"
  proof -
    have "(0::rat) \<le> 6 / 10" "(6 / 10 :: rat) \<le> 6 / 10" "(6 / 10 :: rat) \<le> 2 ^ 100"
      by simp_all
    then obtain y where "fl (6 / 10) = Fin y" "0 \<le> y"
      "y \<le> 6 / 10 * (1000001 / 1000000) + 1 / 1000000"
      using fl_bound[of "6 / 10" "6 / 10"] by blast
    then show ?thesis
      using that by simp
  qed
  obtain y4 where y4: "fl (4 / 10) = Fin y4" "0 \<le> y4" "y4 \<le> 4001 / 10000"
  proof -
    have "(0::rat) \<le> 4 / 10" "(4 / 10 :: rat) \<le> 4 / 10" "(4 / 10 :: rat) \<le> 2 ^ 100"
      by simp_all
    then obtain y where "fl (4 / 10) = Fin y" "0 \<le> y"
      "y \<le> 4 / 10 * (1000001 / 1000000) + 1 / 1000000"
      using fl_bound[of "4 / 10" "4 / 10"] by blast
    then show ?thesis
      using that by simp
  qed
  obtain ya where ya: "fl (vc * y6) = Fin ya" "0 \<le> ya" "ya \<le> vt * (6002 / 10000) + 1 / 1000000"
  proof -
    have "0 \<le> vc * y6"
      using vc(2) y6(2) by simp
    moreover have "vc * y6 \<le> vc * (6001 / 10000)"
      using vc(2) y6(3) by (intro mult_left_mono)
    moreover have "vc * (6001 / 10000) \<le> 2 ^ 100"
      using vc(2,3) big by linarith
    ultimately obtain y where y: "fl (vc * y6) = Fin y" "0 \<le> y"
      "y \<le> vc * (6001 / 10000) * (1000001 / 1000000) + 1 / 1000000"
      using fl_bound[of "vc * y6" "vc * (6001 / 10000)"] by blast
    have "y \<le> vt * (6002 / 10000) + 1 / 1000000"
      using y(3) ct vc(2) by linarith
    then show ?thesis
      using that y(1,2) by blast
  qed
  obtain yb where yb: "fl (vs * y4) = Fin yb" "0 \<le> yb" "yb \<le> vt * (4002 / 10000) + 1 / 1000000"
  proof -
    have "0 \<le> vs * y4"
      using vs(2) y4(2) by simp
    moreover have "vs * y4 \<le> vs * (4001 / 10000)"
      using vs(2) y4(3) by (intro mult_left_mono)
    moreover have "vs * (4001 / 10000) \<le> 2 ^ 100"
      using vs(2) sc vc(3) big by linarith
    ultimately obtain y where y: "fl (vs * y4) = Fin y" "0 \<le> y"
      "y \<le> vs * (4001 / 10000) * (1000001 / 1000000) + 1 / 1000000"
      using fl_bound[of "vs * y4" "vs * (4001 / 10000)"] by blast
    have "y \<le> vt * (4002 / 10000) + 1 / 1000000"
      using y(3) sc ct vs(2) by linarith
    then show ?thesis
      using that y(1,2) by blast
  qed
  obtain ys where ys: "fl (ya + yb) = Fin ys" "0 \<le> ys" "ys \<le> vt * (1001 / 1000)"
  proof -
    have "0 \<le> ya + yb"
      using ya(2) yb(2) by simp
    moreover have "ya + yb \<le> vt * (10004 / 10000) + 2 / 1000000"
      using ya(3) yb(3) by linarith
    moreover have "vt * (10004 / 10000) + 2 / 1000000 \<le> 2 ^ 100"
      using vt(2,3) big by linarith
    ultimately obtain y where y: "fl (ya + yb) = Fin y" "0 \<le> y"
      "y \<le> (vt * (10004 / 10000) + 2 / 1000000) * (1000001 / 1000000) + 1 / 1000000"
      using fl_bound[of "ya + yb" "vt * (10004 / 10000) + 2 / 1000000"] by blast
    have "(vt * (10004 / 10000) + 2 / 1000000) * (1000001 / 1000000)
          = vt * (10004010004 / 10000000000) + 2000002 / 1000000000000"
      by (simp add: algebra_simps)
    then have "y \<le> vt * (1001 / 1000)"
      using y(3) vt(2) by linarith
    then show ?thesis
      using that y(1,2) by blast
  qed
  have "isPercent (Math_round (jmul (jdiv (Fin ys) (Fin vt)) (Fin 100)))"
    using ys(2,3) vt(2) by (intro ratio_isPercent)
  then show ?thesis
    by (simp only: vs vc vt y6 y4 jmul.simps ya yb jadd.simps ys)
qed

text \<open>
  C7.  Every percentage the two scores return is a finite number from 0 to 100, never
  \<open>NaN\<close>, for every indicator list (missing and empty ones included), response store
  and tagged response set (the empty one included).
\<close>

theorem scores_are_percentages:
  "isPercent (sc_percentage (calculateCompletionScore indicators responses))
   \<and> isPercent (completeness (calculateDataQuality tagged))
   \<and> isPercent (standardization (calculateDataQuality tagged))
   \<and> isPercent (overallScore (calculateDataQuality tagged))
   \<and> isPercent (sc_percentage (calculateCompletionScore None responses))
   \<and> isPercent (sc_percentage (calculateCompletionScore (Some []) responses))
   \<and> calculateDataQuality [] = \<lparr>completeness = Fin 0, standardization = Fin 0, overallScore = Fin 0\<rparr>
   \<and> \<not> isPercent NaN"
proof -
  have zero: "isPercent (Fin 0)"
    by (simp add: isPercent_def)
  have score: "isPercent (sc_percentage (calculateCompletionScore i responses))" for i
  proof (cases i)
    case None
    then show ?thesis
      by (simp add: calculateCompletionScore_def zero)
  next
    case (Some inds)
    have "length (filter (\<lambda>f. answered (responses (fld_id f))) (userFields inds))
          \<le> length (userFields inds)"
      by simp
    then have "isPercent (percentOf
        (counter (length (filter (\<lambda>f. answered (responses (fld_id f))) (userFields inds))))
        (counter (length (userFields inds))))"
      by (rule percentOf_isPercent)
    then show ?thesis
      using Some zero by (simp add: calculateCompletionScore_def countFields_eq)
  qed
  define t where "t = length tagged"
  define c where "c = length (filter (\<lambda>e. answered (resp_value (snd e))) tagged)"
  define s where "s = length (filter (\<lambda>e. resp_type (snd e) \<in> set structuredTypes)
                            (filter (\<lambda>e. answered (resp_value (snd e))) tagged))"
  have f: "fold countResponse tagged (Fin 0, Fin 0, Fin 0) = (counter t, counter c, counter s)"
    using fold_countResponse[of tagged 0 0 0] by (simp add: counter_0 t_def c_def s_def)
  have le: "s \<le> c" "c \<le> t"
    unfolding t_def c_def s_def by (rule length_filter_le)+
  have q1: "isPercent (completeness (calculateDataQuality tagged))"
    using percentOf_isPercent[OF le(2)] by (simp add: calculateDataQuality_def f)
  have q2: "isPercent (standardization (calculateDataQuality tagged))"
    using percentOf_isPercent[OF le(1)] by (simp add: calculateDataQuality_def f)
  have q3: "isPercent (overallScore (calculateDataQuality tagged))"
  proof (cases "0 < t")
    case True
    then show ?thesis
      using overall_isPercent[OF le True]
      by (simp add: calculateDataQuality_def f jgreater_counter
            del: jadd.simps jdiv.simps jmul.simps Math_round.simps)
  next
    case False
    then show ?thesis
      using zero by (simp add: calculateDataQuality_def f jgreater_counter)
  qed
  have e: "calculateDataQuality []
           = \<lparr>completeness = Fin 0, standardization = Fin 0, overallScore = Fin 0\<rparr>"
    by (simp add: calculateDataQuality_def percentOf_def)
  show ?thesis
    using score q1 q2 q3 e by (simp add: isPercent_def)
qed

theorem scores_are_percentages_witness:
  "isPercent (sc_percentage (calculateCompletionScore
      (Some [\<lparr>ind_id = js ''indicator_0'', ind_title = js ''Staff'', ind_description = [],
              ind_tier = 2,
              ind_fields = [newField (js ''indicator_0_main'') NUMBER (js ''Staff'') True]\<rparr>])
      (\<lambda>k. VUndefined)))
   \<and> isPercent (completeness (calculateDataQuality
        [(js ''a'', \<lparr>resp_value = VNumber (Fin 3), resp_type = NUMBER\<rparr>),
         (js ''b'', \<lparr>resp_value = VString [], resp_type = TEXT_SHORT\<rparr>)]))
   \<and> isPercent (standardization (calculateDataQuality
        [(js ''a'', \<lparr>resp_value = VNumber (Fin 3), resp_type = NUMBER\<rparr>),
         (js ''b'', \<lparr>resp_value = VString [], resp_type = TEXT_SHORT\<rparr>)]))
   \<and> isPercent (overallScore (calculateDataQuality
        [(js ''a'', \<lparr>resp_value = VNumber (Fin 3), resp_type = NUMBER\<rparr>),
         (js ''b'', \<lparr>resp_value = VString [], resp_type = TEXT_SHORT\<rparr>)]))"
  using scores_are_percentages
    [of "Some [\<lparr>ind_id = js ''indicator_0'', ind_title = js ''Staff'', ind_description = [],
              ind_tier = 2,
              ind_fields = [newField (js ''indicator_0_main'') NUMBER (js ''Staff'') True]\<rparr>]"
        "\<lambda>k. VUndefined"
        "[(js ''a'', \<lparr>resp_value = VNumber (Fin 3), resp_type = NUMBER\<rparr>),
          (js ''b'', \<lparr>resp_value = VString [], resp_type = TEXT_SHORT\<rparr>)]"]
  by blast

section \<open>Compiled indicators and their field identifiers\<close>

lemma trim_Nil: "trim [] = []"
  by (simp add: trim_def)

lemma rowIndicator_skipped:
  "\<not> nonBlankCell col r \<Longrightarrow> rowIndicator col m n i r = None"
  by (auto simp: rowIndicator_def nonBlankCell_def Let_def split: option.splits)

lemma rowIndicator_compiled:
  assumes "nonBlankCell col r"
  shows "\<exists>ind. rowIndicator col m n i r = Some ind
           \<and> ind_id ind = js ''indicator_'' @ digits i
           \<and> ind_title ind = trim (orEmpty (getProp r col))"
proof -
  from assms obtain t where t: "getProp r col = Some t" "trim t \<noteq> []"
    by (auto simp: nonBlankCell_def split: option.splits)
  then have "t \<noteq> []"
    using trim_Nil by auto
  then show ?thesis
    using t by (simp add: rowIndicator_def Let_def orEmpty_def)
qed

lemma compileRows_ids_titles:
  "map ind_id (compileRows col m n k rows)
     = map (\<lambda>(i, r). js ''indicator_'' @ digits i)
         (filter (\<lambda>(i, r). nonBlankCell col r) (enumerate k rows))
   \<and> map ind_title (compileRows col m n k rows)
     = map (\<lambda>(i, r). trim (orEmpty (getProp r col)))
         (filter (\<lambda>(i, r). nonBlankCell col r) (enumerate k rows))"
proof (induction rows arbitrary: k)
  case Nil
  then show ?case by simp
next
  case (Cons r rows)
  show ?case
  proof (cases "nonBlankCell col r")
    case True
    then obtain ind where "rowIndicator col m n k r = Some ind"
      "ind_id ind = js ''indicator_'' @ digits k"
      "ind_title ind = trim (orEmpty (getProp r col))"
      using rowIndicator_compiled by blast
    then show ?thesis
      using True Cons.IH[of "Suc k"] by simp
  next
    case False
    then show ?thesis
      using rowIndicator_skipped[of col r m n k] Cons.IH[of "Suc k"] by simp
  qed
qed

lemma isIndicatorKey_not_empty: "\<not> isIndicatorKey []"
  by (simp add: isIndicatorKey_def toLowerCase_def js_def)

lemma find_indicator_key:
  "find isIndicatorKey ks = Some col \<Longrightarrow> isIndicatorKey col \<and> col \<noteq> [] \<and> col \<in> set ks"
  using isIndicatorKey_not_empty by (auto simp: find_Some_iff)

lemma generateStandardizedFields_found:
  assumes "find isIndicatorKey (keys firstRow) = Some col"
  shows "generateStandardizedFields (Rows (firstRow # rest))
         = Inr (compileRows col (find isMethodKey (keys firstRow)) (find isNotesKey (keys firstRow))
                  0 (firstRow # rest))"
  using assms find_indicator_key[OF assms] by (simp add: Let_def)

lemma generateStandardizedFields_not_found:
  assumes "find isIndicatorKey (keys firstRow) = None"
  shows "generateStandardizedFields (Rows (firstRow # rest)) = Inl (missingColumn firstRow)"
  using assms by (simp add: Let_def)

text \<open>
  C2.  For a non-empty row set whose first row has a header containing \<open>indicator\<close>,
  \<open>outcome\<close> or \<open>measure\<close> in any letter case, the compiler returns one indicator for
  each row whose cell in the indicator column is not blank, in the order of the rows;
  the other rows are skipped without an error; the identifier of an indicator is
  \<open>indicator_\<close> and the position of its row, and its title the trimmed cell.
\<close>

theorem generateStandardizedFields_one_per_nonblank_row:
  assumes "rows \<noteq> []" and "\<exists>k \<in> set (keys (hd rows)). isIndicatorKey k"
  shows "\<exists>col inds.
           find isIndicatorKey (keys (hd rows)) = Some col
         \<and> generateStandardizedFields (Rows rows) = Inr inds
         \<and> map ind_id inds
             = map (\<lambda>(i, r). js ''indicator_'' @ digits i)
                 (filter (\<lambda>(i, r). nonBlankCell col r) (enumerate 0 rows))
         \<and> map ind_title inds
             = map (\<lambda>(i, r). trim (orEmpty (getProp r col)))
                 (filter (\<lambda>(i, r). nonBlankCell col r) (enumerate 0 rows))"
proof -
  from assms(1) obtain firstRow rest where rows: "rows = firstRow # rest"
    by (cases rows) auto
  from assms(2) obtain col where col: "find isIndicatorKey (keys firstRow) = Some col"
    unfolding rows by (cases "find isIndicatorKey (keys firstRow)") (auto simp: find_None_iff)
  show ?thesis
    using col generateStandardizedFields_found[OF col, of rest]
      compileRows_ids_titles[of col "find isMethodKey (keys firstRow)"
        "find isNotesKey (keys firstRow)" 0 rows]
    unfolding rows by auto
qed

theorem generateStandardizedFields_one_per_nonblank_row_witness:
  "\<exists>inds. generateStandardizedFields
       (Rows [[(js ''Indicator'', js ''Staff turnover'')],
              [(js ''Indicator'', js ''  '')],
              [(js ''Other'', js ''x'')],
              [(js ''Indicator'', js '' Board pay '')]]) = Inr inds
     \<and> map ind_id inds = [js ''indicator_0'', js ''indicator_3'']
     \<and> map ind_title inds = [js ''Staff turnover'', js ''Board pay'']"
proof -
  let ?rows = "[[(js ''Indicator'', js ''Staff turnover'')],
              [(js ''Indicator'', js ''  '')],
              [(js ''Other'', js ''x'')],
              [(js ''Indicator'', js '' Board pay '')]]"
  have h1: "?rows \<noteq> []" by simp
  have k: "isIndicatorKey (js ''Indicator'')"
    by (simp add: isIndicatorKey_def str_defs)
  then have h2: "\<exists>k \<in> set (keys (hd ?rows)). isIndicatorKey k"
    by (simp add: keys_def)
  have f: "find isIndicatorKey (keys (hd ?rows)) = Some (js ''Indicator'')"
    using k by (simp add: keys_def)
  from generateStandardizedFields_one_per_nonblank_row[OF h1 h2] obtain col inds where
    c: "find isIndicatorKey (keys (hd ?rows)) = Some col"
    and g: "generateStandardizedFields (Rows ?rows) = Inr inds"
    and i: "map ind_id inds = map (\<lambda>(i, r). js ''indicator_'' @ digits i)
                 (filter (\<lambda>(i, r). nonBlankCell col r) (enumerate 0 ?rows))"
    and t: "map ind_title inds = map (\<lambda>(i, r). trim (orEmpty (getProp r col)))
                 (filter (\<lambda>(i, r). nonBlankCell col r) (enumerate 0 ?rows))"
    by blast
  from c f have col: "col = js ''Indicator''" by simp
  have a: "map ind_id inds = [js ''indicator_0'', js ''indicator_3'']"
    unfolding i col by (simp add: nonBlankCell_def getProp_def digits.simps str_defs)
  have b: "map ind_title inds = [js ''Staff turnover'', js ''Board pay'']"
    unfolding t col by (simp add: nonBlankCell_def getProp_def orEmpty_def str_defs)
  from g a b show ?thesis
    by - (rule exI[of _ inds], intro conjI, assumption+)
qed


lemma digits_range: "c \<in> set (digits n) \<Longrightarrow> 48 \<le> c \<and> c \<le> 57"
proof (induction n arbitrary: c rule: digits.induct)
  case (1 n)
  show ?case
  proof (cases "n < 10")
    case True
    then show ?thesis
      using "1.prems" by (simp add: digits.simps[of n])
  next
    case False
    then have "c \<in> set (digits (n div 10)) \<or> c = 48 + n mod 10"
      using "1.prems" by (auto simp add: digits.simps[of n])
    then show ?thesis
      using "1.IH"[OF False] by auto
  qed
qed

lemma digits_value: "foldl (\<lambda>a c. 10 * a + (c - 48)) 0 (digits n) = n"
proof (induction n rule: digits.induct)
  case (1 n)
  show ?case
  proof (cases "n < 10")
    case True
    then show ?thesis by (simp add: digits.simps[of n])
  next
    case False
    then show ?thesis
      using "1.IH"[OF False] by (simp add: digits.simps[of n])
  qed
qed

lemma digits_inj:
  assumes "digits m = digits n"
  shows "m = n"
proof -
  have "foldl (\<lambda>a c. 10 * a + (c - 48)) 0 (digits m)
        = foldl (\<lambda>a c. 10 * a + (c - 48)) 0 (digits n)"
    using assms by simp
  then show ?thesis
    by (simp add: digits_value)
qed

lemma digits_no_underscore: "95 \<notin> set (digits n)"
proof
  assume "95 \<in> set (digits n)"
  then have "48 \<le> (95::nat) \<and> (95::nat) \<le> 57"
    by (rule digits_range)
  then show False
    by simp
qed

lemma append_separator_eq:
  "a \<notin> set xs \<Longrightarrow> a \<notin> set ys \<Longrightarrow> xs @ a # s = ys @ a # t \<Longrightarrow> xs = ys \<and> s = t"
proof (induction xs arbitrary: ys)
  case Nil
  then show ?case by (cases ys) auto
next
  case (Cons x xs)
  then show ?case by (cases ys) auto
qed

lemma underscore: "js ''_'' = [95]"
  by (simp add: js_def)

lemma idOfRow_unique:
  assumes "idOfRow i x" and "idOfRow j x"
  shows "i = j"
proof -
  from assms obtain s t where "digits i @ 95 # s = digits j @ 95 # t"
    by (auto simp: idOfRow_def underscore)
  then have "digits i = digits j"
    using append_separator_eq[of 95 "digits i" "digits j" s t] digits_no_underscore by simp
  then show ?thesis
    by (rule digits_inj)
qed

lemma suffixed_turnover: "suffixed iid (expandFields iid it mt turnoverConfig)"
  unfolding suffixed_def
  by (rule exI[of _ "[js ''staffAtStart'', js ''staffAtEnd'', js ''staffLeft'',
                      js ''averageStaff'', js ''turnoverRate'']"])
     (simp add: expandFields_def turnoverConfig_def config_def numberInput_def calc_def
        inputToField_def calcToField_def newField_def js_def)

lemma suffixed_funding: "suffixed iid (expandFields iid it mt fundingConfig)"
  unfolding suffixed_def
  by (rule exI[of _ "[js ''coreFunding'', js ''projectFunding'', js ''totalFunding'',
                      js ''corePercentage'', js ''fundingRatio'']"])
     (simp add: expandFields_def fundingConfig_def config_def numberInput_def calc_def
        inputToField_def calcToField_def newField_def js_def)

lemma suffixed_simple:
  "\<exists>t. cfg_type c = Simple t \<Longrightarrow> suffixed iid (expandFields iid it mt c)"
  unfolding suffixed_def
  by (rule exI[of _ "[js ''main'']"])
     (auto simp: expandFields_def mainField_def newField_def js_def)

lemma suffixed_createFieldConfig:
  "suffixed iid (expandFields iid it mt (createFieldConfig it mm))"
proof -
  define lowered where "lowered = (case mm of None \<Rightarrow> [] | Some m \<Rightarrow> toLowerCase m)"
  have no: "\<not> includes_str lowered (js ''(Yes/No)'')"
    by (cases mm) (simp_all add: lowered_def lowered_no_YesNo YesNo_not_empty)
  have leaf: "suffixed iid (expandFields iid it mt (choiceConfig t os))"
    "suffixed iid (expandFields iid it mt scaleConfig)"
    "suffixed iid (expandFields iid it mt meetingsConfig)"
    "suffixed iid (expandFields iid it mt numberConfig)"
    "suffixed iid (expandFields iid it mt percentageConfig)"
    "suffixed iid (expandFields iid it mt textConfig)" for t os
    by (rule suffixed_simple,
        simp add: choiceConfig_def scaleConfig_def meetingsConfig_def numberConfig_def
          percentageConfig_def textConfig_def config_def)+
  show ?thesis
    unfolding createFieldConfig_def Let_def lowered_def[symmetric]
    using no
    by (simp add: suffixed_turnover suffixed_funding leaf)
qed

lemma suffixed_distinct:
  assumes "suffixed iid fs"
  shows "distinct (map fld_id fs)"
proof -
  from assms obtain suffixes where
    s: "distinct suffixes" "map fld_id fs = map (\<lambda>s. iid @ js ''_'' @ s) suffixes"
    by (auto simp: suffixed_def)
  have "distinct (map (\<lambda>s. iid @ js ''_'' @ s) suffixes)"
    using s(1) by (simp add: distinct_map inj_on_def)
  then show ?thesis
    using s(2) by simp
qed

lemma suffixed_idOfRow:
  assumes "suffixed (js ''indicator_'' @ digits i) fs" and "x \<in> set (map fld_id fs)"
  shows "idOfRow i x"
proof -
  from assms(1) obtain suffixes where
    "map fld_id fs = map (\<lambda>s. (js ''indicator_'' @ digits i) @ js ''_'' @ s) suffixes"
    by (auto simp: suffixed_def)
  then have "x \<in> set (map (\<lambda>s. (js ''indicator_'' @ digits i) @ js ''_'' @ s) suffixes)"
    using assms(2) by simp
  then show ?thesis
    by (auto simp: idOfRow_def)
qed

lemma rowIndicator_fields:
  assumes "rowIndicator col m n i r = Some ind"
  shows "ind_id ind = js ''indicator_'' @ digits i \<and> suffixed (ind_id ind) (ind_fields ind)"
  using assms suffixed_createFieldConfig
  by (auto simp: rowIndicator_def Let_def split: option.splits if_splits)

lemma compileRows_invariant:
  "distinct (fieldIds (compileRows col m n k rows))
   \<and> (\<forall>x \<in> set (fieldIds (compileRows col m n k rows)). \<exists>i\<ge>k. idOfRow i x)
   \<and> (\<forall>ind \<in> set (compileRows col m n k rows).
        (\<exists>i\<ge>k. ind_id ind = js ''indicator_'' @ digits i)
        \<and> suffixed (ind_id ind) (ind_fields ind))
   \<and> distinct (map ind_id (compileRows col m n k rows))"
proof (induction rows arbitrary: k)
  case Nil
  then show ?case by (simp add: fieldIds_def)
next
  case (Cons r rows)
  let ?rest = "compileRows col m n (Suc k) rows"
  have IH: "distinct (fieldIds ?rest)"
    "\<forall>x \<in> set (fieldIds ?rest). \<exists>i\<ge>Suc k. idOfRow i x"
    "\<forall>ind \<in> set ?rest. (\<exists>i\<ge>Suc k. ind_id ind = js ''indicator_'' @ digits i)
        \<and> suffixed (ind_id ind) (ind_fields ind)"
    "distinct (map ind_id ?rest)"
    using Cons.IH[of "Suc k"] by auto
  show ?case
  proof (cases "rowIndicator col m n k r")
    case None
    then have cr: "compileRows col m n k (r # rows) = ?rest"
      by simp
    have d2: "\<forall>x \<in> set (fieldIds ?rest). \<exists>i\<ge>k. idOfRow i x"
      using IH(2) Suc_leD by blast
    have d3: "\<forall>i \<in> set ?rest. (\<exists>j\<ge>k. ind_id i = js ''indicator_'' @ digits j)
        \<and> suffixed (ind_id i) (ind_fields i)"
      using IH(3) Suc_leD by blast
    show ?thesis
      unfolding cr using IH(1) d2 d3 IH(4) by blast
  next
    case (Some ind)
    then have hd: "ind_id ind = js ''indicator_'' @ digits k" "suffixed (ind_id ind) (ind_fields ind)"
      using rowIndicator_fields by blast+
    have own: "\<forall>x \<in> set (map fld_id (ind_fields ind)). idOfRow k x"
      using hd suffixed_idOfRow by metis
    have disj: "set (map fld_id (ind_fields ind)) \<inter> set (fieldIds ?rest) = {}"
    proof (rule ccontr)
      assume "set (map fld_id (ind_fields ind)) \<inter> set (fieldIds ?rest) \<noteq> {}"
      then obtain x where "x \<in> set (map fld_id (ind_fields ind))" "x \<in> set (fieldIds ?rest)"
        by blast
      then obtain i where "idOfRow k x" "Suc k \<le> i" "idOfRow i x"
        using own IH(2) by blast
      then show False
        using idOfRow_unique by fastforce
    qed
    have notin: "ind_id ind \<notin> set (map ind_id ?rest)"
    proof
      assume "ind_id ind \<in> set (map ind_id ?rest)"
      then obtain other where "other \<in> set ?rest" "ind_id other = ind_id ind"
        by auto
      then obtain i where "Suc k \<le> i" "js ''indicator_'' @ digits i = js ''indicator_'' @ digits k"
        using IH(3) hd(1) by metis
      then show False
        using digits_inj by fastforce
    qed
    have cr: "compileRows col m n k (r # rows) = ind # ?rest"
      using Some by simp
    have f: "fieldIds (ind # ?rest) = map fld_id (ind_fields ind) @ fieldIds ?rest"
      by (simp add: fieldIds_def)
    have d1: "distinct (fieldIds (ind # ?rest))"
      unfolding f using suffixed_distinct[OF hd(2)] IH(1) disj by simp
    have r2: "\<forall>x \<in> set (fieldIds ?rest). \<exists>i\<ge>k. idOfRow i x"
      using IH(2) Suc_leD by blast
    have r3: "\<forall>i \<in> set ?rest. (\<exists>j\<ge>k. ind_id i = js ''indicator_'' @ digits j)
        \<and> suffixed (ind_id i) (ind_fields i)"
      using IH(3) Suc_leD by blast
    have d2: "\<forall>x \<in> set (fieldIds (ind # ?rest)). \<exists>i\<ge>k. idOfRow i x"
      unfolding f using own r2 by auto
    have d3: "\<forall>i \<in> set (ind # ?rest). (\<exists>j\<ge>k. ind_id i = js ''indicator_'' @ digits j)
        \<and> suffixed (ind_id i) (ind_fields i)"
      using hd r3 by auto
    have d4: "distinct (map ind_id (ind # ?rest))"
      using notin IH(4) by simp
    show ?thesis
      unfolding cr using d1 d2 d3 d4 by blast
  qed
qed

text \<open>
  C6.  In a compiled run all field identifiers are pairwise distinct, across all
  indicators: the indicator identifiers \<open>indicator_<index>\<close> are pairwise distinct, and
  the field identifiers of an indicator are its identifier, an underscore and pairwise
  distinct suffixes.
\<close>

theorem generateStandardizedFields_field_ids_distinct:
  assumes "generateStandardizedFields d = Inr inds"
  shows "distinct (fieldIds inds)
       \<and> distinct (map ind_id inds)
       \<and> (\<forall>ind \<in> set inds.
            (\<exists>i. ind_id ind = js ''indicator_'' @ digits i)
          \<and> (\<exists>suffixes. distinct suffixes
                \<and> map fld_id (ind_fields ind) = map (\<lambda>s. ind_id ind @ js ''_'' @ s) suffixes))"
proof -
  have empty: "?thesis" if "inds = []"
    using that by (simp add: fieldIds_def)
  have compiled: "?thesis" if "inds = compileRows col m n 0 rows" for col m n rows
    using compileRows_invariant[of col m n 0 rows] that
    unfolding suffixed_def by blast
  show ?thesis
  proof (cases d)
    case NullData
    then show ?thesis using assms empty by simp
  next
    case UndefinedData
    then show ?thesis using assms empty by simp
  next
    case (Rows rows)
    show ?thesis
    proof (cases rows)
      case Nil
      then show ?thesis using assms Rows empty by simp
    next
      case (Cons firstRow rest)
      show ?thesis
      proof (cases "find isIndicatorKey (keys firstRow)")
        case None
        then show ?thesis
          using assms Rows Cons generateStandardizedFields_not_found[of firstRow rest] by simp
      next
        case (Some col)
        then have "inds = compileRows col (find isMethodKey (keys firstRow))
                            (find isNotesKey (keys firstRow)) 0 rows"
          using assms Rows Cons generateStandardizedFields_found[of firstRow col rest] by simp
        then show ?thesis
          by (rule compiled)
      qed
    qed
  qed
qed

theorem generateStandardizedFields_field_ids_distinct_witness:
  "\<exists>inds. generateStandardizedFields
       (Rows [[(js ''Indicator'', js ''Staff turnover'')],
              [(js ''Indicator'', js ''Morale'')]]) = Inr inds
     \<and> distinct (fieldIds inds)
     \<and> fieldIds inds =
         [js ''indicator_0_staffAtStart'', js ''indicator_0_staffAtEnd'',
          js ''indicator_0_staffLeft'', js ''indicator_0_averageStaff'',
          js ''indicator_0_turnoverRate'', js ''indicator_1_main'']"
proof -
  let ?rows = "[[(js ''Indicator'', js ''Staff turnover'')], [(js ''Indicator'', js ''Morale'')]]"
  let ?inds = "compileRows (js ''Indicator'') None None 0 ?rows"
  have k: "isIndicatorKey (js ''Indicator'')" "\<not> isMethodKey (js ''Indicator'')"
    "\<not> isNotesKey (js ''Indicator'')"
    by (simp_all add: isIndicatorKey_def isMethodKey_def isNotesKey_def str_defs)
  then have g: "generateStandardizedFields (Rows ?rows) = Inr ?inds"
    by (simp add: keys_def js_def)
  have d: "distinct (fieldIds ?inds)"
    using generateStandardizedFields_field_ids_distinct[OF g] by (rule conjunct1)
  have f: "fieldIds ?inds =
         [js ''indicator_0_staffAtStart'', js ''indicator_0_staffAtEnd'',
          js ''indicator_0_staffLeft'', js ''indicator_0_averageStaff'',
          js ''indicator_0_turnoverRate'', js ''indicator_1_main'']"
    by (simp add: fieldIds_def rowIndicator_def getProp_def propertyKey_def orEmpty_def
          createFieldConfig_def expandFields_def turnoverConfig_def textConfig_def config_def
          numberInput_def calc_def inputToField_def calcToField_def mainField_def newField_def
          digits.simps str_defs Let_def)
  from g d f show ?thesis
    by - (rule exI[of _ ?inds], intro conjI, assumption+)
qed

text \<open>
  The missing-column error is returned exactly when no header of the first row is an
  indicator header, and its message lists the headers.  Where the first row has no
  method or notes header and no row has a column named \<open>undefined\<close>, the method text and
  the description are empty.
\<close>

lemma generateStandardizedFields_error_iff:
  "(generateStandardizedFields (Rows (firstRow # rest)) = Inl (missingColumn firstRow))
     = (\<not> (\<exists>k \<in> set (keys firstRow). isIndicatorKey k))"
proof (cases "find isIndicatorKey (keys firstRow)")
  case None
  then show ?thesis
    using generateStandardizedFields_not_found[of firstRow rest] by (simp add: find_None_iff)
next
  case (Some col)
  then show ?thesis
    using generateStandardizedFields_found[of firstRow col rest] find_indicator_key[of "keys firstRow" col]
    by auto
qed

lemma missingColumn_message:
  "missingColumn firstRow
     = Error (js ''No indicator column found. Available columns: ''
              @ join_str (js '', '') (map fst firstRow))"
  by (simp add: missingColumn_def keys_def)

lemma absent_column_reads_empty:
  assumes "js ''undefined'' \<notin> set (keys r)"
  shows "orEmpty (getProp r (propertyKey None)) = []"
proof -
  have "map_of r (js ''undefined'') = None"
    using assms by (simp add: keys_def map_of_eq_None_iff)
  then show ?thesis
    by (simp add: orEmpty_def getProp_def propertyKey_def)
qed

end
